theory Spec2Isabelle
  imports Main
begin

section \<open>The pyinotify tracker of Trackma (trackma/tracker/pyinotify.py)\<close>

text \<open>
  The tracker watches a directory with inotify and decides from \<^verbatim>\<open>/proc\<close> whether a media
  player holds a file open. Every value below is the Python value: \<^verbatim>\<open>str\<close> and
  \<^verbatim>\<open>bytes\<close> are \<open>string\<close> (a list of byte characters), \<^verbatim>\<open>None\<close> is \<open>None\<close>, an
  exception is the \<open>Inl\<close> of a sum. What the code does to the outside (operating-system
  calls, debug messages, calls of the base class) is recorded, in order, as a list of
  \<open>action\<close>s.
\<close>

subsection \<open>Exceptions\<close>

text \<open>
  \<^verbatim>\<open>os.listdir\<close>, \<^verbatim>\<open>os.readlink\<close>, \<^verbatim>\<open>open\<close>, \<^verbatim>\<open>read\<close> and \<^verbatim>\<open>os.lstat\<close> fail
  with \<^verbatim>\<open>OSError\<close> (or one of its subclasses); anything else that is raised is an \<open>Exception\<close>.
\<close>

datatype oserror = PermissionError | FileNotFoundError | ProcessLookupError | OtherOSError

datatype exn = OSError oserror | Exception string

subsection \<open>The operating system as the code reads it\<close>

text \<open>
  One snapshot of the file system, by path: the result of each call the tracker makes.
  A process that vanishes during a scan is a snapshot whose calls disagree (its directory is
  listed, a later call on it fails).
\<close>

record world =
  listdir :: "string \<Rightarrow> oserror + string list"
  readlink :: "string \<Rightarrow> oserror + string"
  read_rb :: "string \<Rightarrow> oserror + string"
  lstat_islnk :: "string \<Rightarrow> oserror + bool"

text \<open>
  \<open>read_rb w path\<close> is \<^verbatim>\<open>open(path, 'rb').read()\<close>;
  \<open>lstat_islnk w path\<close> is \<^verbatim>\<open>stat.S_ISLNK(os.lstat(path).st_mode)\<close>.
\<close>

subsection \<open>What the tracker does to the outside\<close>

datatype signal = Detected | Removed

datatype ('st, 'sh) dbg =
    GotOpenEvent string string
  | AlreadyTracked
  | PlayingProcess string string string
  | NotReadByPlayer string
  | CouldntFindPlayingProcess
  | GotStatus 'st 'sh
  | NotPlayedByPlayer
  | GotCloseEvent string string
  | DifferentFileClosed
  | PidHasntClosed
  | WatchingDirectory string
  | SendingLastState 'st 'sh

datatype info = UsingPyinotify | TrackerHasStopped

datatype ('st, 'sh) action =
    Debug "('st, 'sh) dbg"
  | Info info
  | Listdir string
  | Readlink string
  | ReadRb string
  | Lstat string
  | Sleep
  | EmitSignal signal string string
  | GetPlayingShow "string option"
  | UpdateShowIfNeeded 'st 'sh
  | AddWatch string
  | CheckEvents "nat option"
  | ReadEvents
  | ProcessEvents
  | NotifierStop

text \<open>
  \<open>Debug\<close> and \<open>Info\<close> are the calls of \<^verbatim>\<open>self.msg.debug\<close> and \<^verbatim>\<open>self.msg.info\<close>, one
  constructor of \<open>dbg\<close> and \<open>info\<close> for each message of the source, with the values
  formatted into it. The messenger is taken not to raise.
\<close>

definition prepend :: "'a list \<Rightarrow> 'a list \<times> 'b \<Rightarrow> 'a list \<times> 'b" where
  "prepend tr r = (tr @ fst r, snd r)"

subsection \<open>Python's string operations\<close>

text \<open>\<^verbatim>\<open>p.isdigit()\<close>, for the ASCII names of \<^verbatim>\<open>/proc\<close>: not empty, decimal digits only.\<close>

definition isdigit :: "string \<Rightarrow> bool" where
  "isdigit p = (p \<noteq> [] \<and> list_all (\<lambda>c. c \<in> set ''0123456789'') p)"

text \<open>\<^verbatim>\<open>cmdline.partition(b'\x00')[0]\<close>: the bytes before the first null byte.\<close>

definition partition0 :: "string \<Rightarrow> string" where
  "partition0 cmdline = takeWhile (\<lambda>c. c \<noteq> CHR 0x00) cmdline"

text \<open>\<^verbatim>\<open>"%s" % v\<close> for a value that is a string or \<^verbatim>\<open>None\<close>.\<close>

definition fmt_s :: "string option \<Rightarrow> string" where
  "fmt_s v = (case v of None \<Rightarrow> ''None'' | Some s \<Rightarrow> s)"

text \<open>\<^verbatim>\<open>os.path.join(path, name)\<close> of \<^verbatim>\<open>posixpath\<close>, for two arguments.\<close>

definition path_join :: "string \<Rightarrow> string \<Rightarrow> string" where
  "path_join a b =
     (if (b \<noteq> [] \<and> hd b = CHR ''/'') \<or> a = [] then b
      else if last a = CHR ''/'' then a @ b
      else a @ ''/'' @ b)"

text \<open>
  \<^verbatim>\<open>re.compile(pattern).search(s)\<close> for a pattern without metacharacters: whether the
  pattern occurs in \<open>s\<close>. The compiled pattern itself, \<^verbatim>\<open>self.re_players\<close>, is a parameter
  \<open>pat\<close> of the scan: the predicate "search finds a match".
\<close>

fun starts_with :: "string \<Rightarrow> string \<Rightarrow> bool" where
  "starts_with [] s = True"
| "starts_with (c # cs) [] = False"
| "starts_with (c # cs) (d # ds) = (c = d \<and> starts_with cs ds)"

fun literal_search :: "string \<Rightarrow> string \<Rightarrow> bool" where
  "literal_search pat [] = (pat = [])"
| "literal_search pat (c # cs) = (starts_with pat (c # cs) \<or> literal_search pat cs)"

subsection \<open>\<^verbatim>\<open>_is_being_played\<close>: the Process Correlator\<close>

definition fd_dir :: "string \<Rightarrow> string" where
  "fd_dir p = ''/proc/'' @ p @ ''/fd/''"

definition cmdline_path :: "string \<Rightarrow> string" where
  "cmdline_path p = ''/proc/'' @ p @ ''/cmdline''"

text \<open>
  The inner loop \<^verbatim>\<open>for fd in os.listdir(d)\<close>, which runs inside the \<^verbatim>\<open>try\<close>. Its result is
  \<open>Inl e\<close> when an \<^verbatim>\<open>OSError\<close> ended it, \<open>Inr (Some fd)\<close> when it reached
  \<^verbatim>\<open>return p, fd\<close>, and \<open>Inr None\<close> when it ran to its end.
\<close>

fun fd_loop ::
  "world \<Rightarrow> (string \<Rightarrow> bool) \<Rightarrow> string \<Rightarrow> string \<Rightarrow> string list
     \<Rightarrow> ('st, 'sh) action list \<times> (oserror + string option)" where
  "fd_loop w pat filename p [] = ([], Inr None)"
| "fd_loop w pat filename p (fd # fds) =
     (case readlink w (fd_dir p @ fd) of
        Inl e \<Rightarrow> ([Readlink (fd_dir p @ fd)], Inl e)
      | Inr f \<Rightarrow>
          if f = filename then
            (case read_rb w (cmdline_path p) of
               Inl e \<Rightarrow> ([Readlink (fd_dir p @ fd), ReadRb (cmdline_path p)], Inl e)
             | Inr cmdline \<Rightarrow>
                 if pat (partition0 cmdline) then
                   ([Readlink (fd_dir p @ fd), ReadRb (cmdline_path p),
                     Debug (PlayingProcess p (partition0 cmdline) cmdline)],
                    Inr (Some fd))
                 else
                   prepend
                     [Readlink (fd_dir p @ fd), ReadRb (cmdline_path p),
                      Debug (PlayingProcess p (partition0 cmdline) cmdline),
                      Debug (NotReadByPlayer (partition0 cmdline))]
                     (fd_loop w pat filename p fds))
          else prepend [Readlink (fd_dir p @ fd)] (fd_loop w pat filename p fds))"

text \<open>
  The outer loop \<^verbatim>\<open>for p in os.listdir("/proc/")\<close> with its \<^verbatim>\<open>try ... except OSError: pass\<close>,
  and the two lines after it.
\<close>

fun proc_loop ::
  "world \<Rightarrow> (string \<Rightarrow> bool) \<Rightarrow> string \<Rightarrow> string list
     \<Rightarrow> ('st, 'sh) action list \<times> (string option \<times> string option)" where
  "proc_loop w pat filename [] =
     ([Debug CouldntFindPlayingProcess], (None, None))"
| "proc_loop w pat filename (p # ps) =
     (if \<not> isdigit p then proc_loop w pat filename ps
      else
        (case listdir w (fd_dir p) of
           Inl e \<Rightarrow> prepend [Listdir (fd_dir p)] (proc_loop w pat filename ps)
         | Inr fds \<Rightarrow>
             (case fd_loop w pat filename p fds of
                (tr, Inr (Some fd)) \<Rightarrow> (Listdir (fd_dir p) # tr, (Some p, Some fd))
              | (tr, Inr None) \<Rightarrow>
                  prepend (Listdir (fd_dir p) # tr) (proc_loop w pat filename ps)
              | (tr, Inl e) \<Rightarrow>
                  prepend (Listdir (fd_dir p) # tr) (proc_loop w pat filename ps))))"

text \<open>
  \<^verbatim>\<open>os.listdir("/proc/")\<close> is outside the \<^verbatim>\<open>try\<close>: its failure leaves the function as an
  exception.
\<close>

definition is_being_played ::
  "world \<Rightarrow> (string \<Rightarrow> bool) \<Rightarrow> string
     \<Rightarrow> ('st, 'sh) action list \<times> (exn + (string option \<times> string option))" where
  "is_being_played w pat filename =
     (case listdir w ''/proc/'' of
        Inl e \<Rightarrow> ([Listdir ''/proc/''], Inl (OSError e))
      | Inr ps \<Rightarrow>
          (case proc_loop w pat filename ps of
             (tr, r) \<Rightarrow> (Listdir ''/proc/'' # tr, Inr r)))"

subsection \<open>\<^verbatim>\<open>_closed_handle\<close>: the Handle Closure Checker\<close>

text \<open>
  \<^verbatim>\<open>os.path.islink(path)\<close>: \<^verbatim>\<open>os.lstat\<close> inside a \<^verbatim>\<open>try\<close> that answers \<^verbatim>\<open>False\<close> on
  \<^verbatim>\<open>OSError\<close>.
\<close>

definition islink :: "world \<Rightarrow> string \<Rightarrow> bool" where
  "islink w path = (case lstat_islnk w path of Inl e \<Rightarrow> False | Inr b \<Rightarrow> b)"

definition closed_handle :: "world \<Rightarrow> string option \<Rightarrow> string option \<Rightarrow> bool" where
  "closed_handle w pid fd = (\<not> islink w (''/proc/'' @ fmt_s pid @ ''/fd/'' @ fmt_s fd))"

subsection \<open>The tracker object\<close>

text \<open>
  The base class \<^verbatim>\<open>tracker.TrackerBase\<close> and \<^verbatim>\<open>utils\<close> are not part of this file. What
  the tracker reads of the base class are four attributes; \<open>other\<close> stands for everything
  else the base class and the signal handlers keep.
\<close>

record ('st, 'sh, 'x) tracker_base =
  active :: bool
  last_state :: 'st
  last_show_tuple :: 'sh
  last_updated :: bool
  other :: 'x

text \<open>
  The inherited methods, the compiled pattern and the constant
  \<^verbatim>\<open>utils.TRACKER_NOVIDEO\<close> are parameters. A method takes the attributes of the base class
  and returns them changed, with \<open>Inl e\<close> when it raised \<open>e\<close>.
\<close>

record ('st, 'sh, 'x) collab =
  emit_signal :: "signal \<Rightarrow> string \<Rightarrow> string \<Rightarrow> ('st, 'sh, 'x) tracker_base
     \<Rightarrow> (exn + unit) \<times> ('st, 'sh, 'x) tracker_base"
  get_playing_show :: "string option \<Rightarrow> ('st, 'sh, 'x) tracker_base
     \<Rightarrow> (exn + 'st \<times> 'sh) \<times> ('st, 'sh, 'x) tracker_base"
  update_show_if_needed :: "'st \<Rightarrow> 'sh \<Rightarrow> ('st, 'sh, 'x) tracker_base
     \<Rightarrow> (exn + unit) \<times> ('st, 'sh, 'x) tracker_base"
  re_players :: "string \<Rightarrow> bool"
  TRACKER_NOVIDEO :: 'st

text \<open>
  \<open>open_file\<close> is the tuple \<^verbatim>\<open>(pathname, pid, fd)\<close> of the source, \<^verbatim>\<open>(None, None, None)\<close>
  at the start; \<open>trace\<close> is what the tracker has done to the outside so far.
\<close>

record ('st, 'sh, 'x) tracker =
  open_file :: "string option \<times> string option \<times> string option"
  base :: "('st, 'sh, 'x) tracker_base"
  trace :: "('st, 'sh) action list"

definition log ::
  "('st, 'sh) action list \<Rightarrow> ('st, 'sh, 'x) tracker \<Rightarrow> ('st, 'sh, 'x) tracker" where
  "log tr st = st\<lparr>trace := trace st @ tr\<rparr>"

text \<open>Python's truth value of a string or \<^verbatim>\<open>None\<close>.\<close>

definition truthy :: "string option \<Rightarrow> bool" where
  "truthy v = (case v of None \<Rightarrow> False | Some s \<Rightarrow> s \<noteq> [])"

definition call_emit_signal ::
  "('st, 'sh, 'x) collab \<Rightarrow> signal \<Rightarrow> string \<Rightarrow> string \<Rightarrow> ('st, 'sh, 'x) tracker
     \<Rightarrow> (exn + unit) \<times> ('st, 'sh, 'x) tracker" where
  "call_emit_signal c sg pth nm st =
     (case emit_signal c sg pth nm (base st) of
        (r, b) \<Rightarrow> (r, (log [EmitSignal sg pth nm] st)\<lparr>base := b\<rparr>))"

definition call_get_playing_show ::
  "('st, 'sh, 'x) collab \<Rightarrow> string option \<Rightarrow> ('st, 'sh, 'x) tracker
     \<Rightarrow> (exn + 'st \<times> 'sh) \<times> ('st, 'sh, 'x) tracker" where
  "call_get_playing_show c nm st =
     (case get_playing_show c nm (base st) of
        (r, b) \<Rightarrow> (r, (log [GetPlayingShow nm] st)\<lparr>base := b\<rparr>))"

definition call_update_show_if_needed ::
  "('st, 'sh, 'x) collab \<Rightarrow> 'st \<Rightarrow> 'sh \<Rightarrow> ('st, 'sh, 'x) tracker
     \<Rightarrow> (exn + unit) \<times> ('st, 'sh, 'x) tracker" where
  "call_update_show_if_needed c s sh st =
     (case update_show_if_needed c s sh (base st) of
        (r, b) \<Rightarrow> (r, (log [UpdateShowIfNeeded s sh] st)\<lparr>base := b\<rparr>))"

subsection \<open>\<^verbatim>\<open>_proc_open\<close> and \<^verbatim>\<open>_proc_close\<close>: the Tracking State Machine\<close>

definition proc_open ::
  "('st, 'sh, 'x) collab \<Rightarrow> world \<Rightarrow> string \<Rightarrow> string \<Rightarrow> ('st, 'sh, 'x) tracker
     \<Rightarrow> (exn + unit) \<times> ('st, 'sh, 'x) tracker" where
  "proc_open c w pth nm st =
     (let st1 = log [Debug (GotOpenEvent pth nm)] st;
          pathname = path_join pth nm
      in
        if truthy (fst (open_file st1)) then (Inr (), log [Debug AlreadyTracked] st1)
        else
          (case is_being_played w (re_players c) pathname of
             (tr, Inl e) \<Rightarrow> (Inl e, log tr st1)
           | (tr, Inr (pid, fd)) \<Rightarrow>
               if truthy pid then
                 (case call_emit_signal c Detected pth nm (log tr st1) of
                    (Inl e, st2) \<Rightarrow> (Inl e, st2)
                  | (Inr u, st2) \<Rightarrow>
                      (case call_get_playing_show c (Some nm)
                              (st2\<lparr>open_file := (Some pathname, pid, fd)\<rparr>) of
                         (Inl e, st3) \<Rightarrow> (Inl e, st3)
                       | (Inr (s, show_tuple), st3) \<Rightarrow>
                           call_update_show_if_needed c s show_tuple
                             (log [Debug (GotStatus s show_tuple)] st3)))
               else (Inr (), log (tr @ [Debug NotPlayedByPlayer]) st1)))"

definition handle_path :: "string option \<Rightarrow> string option \<Rightarrow> string" where
  "handle_path pid fd = ''/proc/'' @ fmt_s pid @ ''/fd/'' @ fmt_s fd"

definition proc_close ::
  "('st, 'sh, 'x) collab \<Rightarrow> world \<Rightarrow> string \<Rightarrow> string \<Rightarrow> ('st, 'sh, 'x) tracker
     \<Rightarrow> (exn + unit) \<times> ('st, 'sh, 'x) tracker" where
  "proc_close c w pth nm st =
     (let st1 = log [Debug (GotCloseEvent pth nm), Sleep] st;
          pathname = path_join pth nm
      in
        (case open_file st1 of
           (open_pathname, pid, fd) \<Rightarrow>
             if Some pathname \<noteq> open_pathname then
               (Inr (), log [Debug DifferentFileClosed] st1)
             else if \<not> closed_handle w pid fd then
               (Inr (), log [Lstat (handle_path pid fd), Debug PidHasntClosed] st1)
             else
               (case call_emit_signal c Detected pth nm
                       (log [Lstat (handle_path pid fd)] st1) of
                  (Inl e, st2) \<Rightarrow> (Inl e, st2)
                | (Inr u, st2) \<Rightarrow>
                    (case call_get_playing_show c None
                            (st2\<lparr>open_file := (None, None, None)\<rparr>) of
                       (Inl e, st3) \<Rightarrow> (Inl e, st3)
                     | (Inr (s, show_tuple), st3) \<Rightarrow>
                         call_update_show_if_needed c s show_tuple st3))))"

subsection \<open>\<^verbatim>\<open>EventHandler\<close>: the Event Classifier\<close>

text \<open>
  An event of pyinotify: which of the watched kinds it is (pyinotify calls the method
  \<^verbatim>\<open>process_\<close>\<open>kind\<close>), whether \<^verbatim>\<open>event.mask & IN_ISDIR\<close> is set, \<^verbatim>\<open>event.path\<close> and
  \<^verbatim>\<open>event.name\<close>.
\<close>

datatype kind =
  IN_OPEN | IN_CLOSE_NOWRITE | IN_CLOSE_WRITE | IN_CREATE | IN_MOVED_FROM | IN_MOVED_TO |
  IN_DELETE

record event =
  ev_kind :: kind
  ev_isdir :: bool
  ev_path :: string
  ev_name :: string

definition process_IN_OPEN ::
  "('st, 'sh, 'x) collab \<Rightarrow> world \<Rightarrow> event \<Rightarrow> ('st, 'sh, 'x) tracker
     \<Rightarrow> (exn + unit) \<times> ('st, 'sh, 'x) tracker" where
  "process_IN_OPEN c w ev st =
     (if \<not> ev_isdir ev then proc_open c w (ev_path ev) (ev_name ev) st else (Inr (), st))"

definition process_IN_CLOSE_NOWRITE ::
  "('st, 'sh, 'x) collab \<Rightarrow> world \<Rightarrow> event \<Rightarrow> ('st, 'sh, 'x) tracker
     \<Rightarrow> (exn + unit) \<times> ('st, 'sh, 'x) tracker" where
  "process_IN_CLOSE_NOWRITE c w ev st =
     (if \<not> ev_isdir ev then proc_close c w (ev_path ev) (ev_name ev) st else (Inr (), st))"

definition process_IN_CLOSE_WRITE ::
  "('st, 'sh, 'x) collab \<Rightarrow> world \<Rightarrow> event \<Rightarrow> ('st, 'sh, 'x) tracker
     \<Rightarrow> (exn + unit) \<times> ('st, 'sh, 'x) tracker" where
  "process_IN_CLOSE_WRITE c w ev st =
     (if \<not> ev_isdir ev then proc_close c w (ev_path ev) (ev_name ev) st else (Inr (), st))"

definition process_IN_CREATE ::
  "('st, 'sh, 'x) collab \<Rightarrow> event \<Rightarrow> ('st, 'sh, 'x) tracker
     \<Rightarrow> (exn + unit) \<times> ('st, 'sh, 'x) tracker" where
  "process_IN_CREATE c ev st =
     (if \<not> ev_isdir ev then call_emit_signal c Detected (ev_path ev) (ev_name ev) st
      else (Inr (), st))"

definition process_IN_MOVED_TO ::
  "('st, 'sh, 'x) collab \<Rightarrow> event \<Rightarrow> ('st, 'sh, 'x) tracker
     \<Rightarrow> (exn + unit) \<times> ('st, 'sh, 'x) tracker" where
  "process_IN_MOVED_TO c ev st =
     (if \<not> ev_isdir ev then call_emit_signal c Detected (ev_path ev) (ev_name ev) st
      else (Inr (), st))"

definition process_IN_MOVED_FROM ::
  "('st, 'sh, 'x) collab \<Rightarrow> event \<Rightarrow> ('st, 'sh, 'x) tracker
     \<Rightarrow> (exn + unit) \<times> ('st, 'sh, 'x) tracker" where
  "process_IN_MOVED_FROM c ev st =
     (if \<not> ev_isdir ev then call_emit_signal c Removed (ev_path ev) (ev_name ev) st
      else (Inr (), st))"

definition process_IN_DELETE ::
  "('st, 'sh, 'x) collab \<Rightarrow> event \<Rightarrow> ('st, 'sh, 'x) tracker
     \<Rightarrow> (exn + unit) \<times> ('st, 'sh, 'x) tracker" where
  "process_IN_DELETE c ev st =
     (if \<not> ev_isdir ev then call_emit_signal c Removed (ev_path ev) (ev_name ev) st
      else (Inr (), st))"

text \<open>
  The handler called on one event, by the name of its kind. The \<open>world\<close> beside the event
  is the file system as it is while that event is handled.
\<close>

definition EventHandler ::
  "('st, 'sh, 'x) collab \<Rightarrow> world \<times> event \<Rightarrow> ('st, 'sh, 'x) tracker
     \<Rightarrow> (exn + unit) \<times> ('st, 'sh, 'x) tracker" where
  "EventHandler c we st =
     (case we of
        (w, ev) \<Rightarrow>
          (case ev_kind ev of
             IN_OPEN \<Rightarrow> process_IN_OPEN c w ev st
           | IN_CLOSE_NOWRITE \<Rightarrow> process_IN_CLOSE_NOWRITE c w ev st
           | IN_CLOSE_WRITE \<Rightarrow> process_IN_CLOSE_WRITE c w ev st
           | IN_CREATE \<Rightarrow> process_IN_CREATE c ev st
           | IN_MOVED_TO \<Rightarrow> process_IN_MOVED_TO c ev st
           | IN_MOVED_FROM \<Rightarrow> process_IN_MOVED_FROM c ev st
           | IN_DELETE \<Rightarrow> process_IN_DELETE c ev st))"

text \<open>
  \<^verbatim>\<open>notifier.process_events()\<close>: the handler on each queued event in turn; an exception
  of the handler ends it.
\<close>

fun process_events ::
  "('st, 'sh, 'x) collab \<Rightarrow> (world \<times> event) list \<Rightarrow> ('st, 'sh, 'x) tracker
     \<Rightarrow> (exn + unit) \<times> ('st, 'sh, 'x) tracker" where
  "process_events c [] st = (Inr (), st)"
| "process_events c (we # wes) st =
     (case EventHandler c we st of
        (Inl e, st1) \<Rightarrow> (Inl e, st1)
      | (Inr u, st1) \<Rightarrow> process_events c wes st1)"

subsection \<open>\<^verbatim>\<open>observe\<close>: the Watch Loop\<close>

text \<open>
  What the outside does during one turn of the \<^verbatim>\<open>while\<close> loop:
  \<^verbatim>\<open>notifier.check_events(timeout)\<close> raises, or is false (the wait timed out), or is true,
  and then \<^verbatim>\<open>notifier.read_events()\<close> raises or queues events; \<open>stopped\<close> says that the
  controller set \<^verbatim>\<open>self.active = False\<close> during the turn.
\<close>

datatype polled = CheckRaises exn | NoEvents | Events "exn + (world \<times> event) list"

record turn =
  polled :: polled
  stopped :: bool

text \<open>The body of the \<^verbatim>\<open>while\<close> loop; its value is the \<^verbatim>\<open>timeout\<close> after it.\<close>

definition loop_body ::
  "('st, 'sh, 'x) collab \<Rightarrow> polled \<Rightarrow> nat option \<Rightarrow> ('st, 'sh, 'x) tracker
     \<Rightarrow> (exn + nat option) \<times> ('st, 'sh, 'x) tracker" where
  "loop_body c pl timeout st =
     (let st1 = log [CheckEvents timeout] st in
        (case pl of
           CheckRaises e \<Rightarrow> (Inl e, st1)
         | Events r \<Rightarrow>
             (case r of
                Inl e \<Rightarrow> (Inl e, log [ReadEvents] st1)
              | Inr wes \<Rightarrow>
                  (case process_events c wes (log [ReadEvents, ProcessEvents] st1) of
                     (Inl e, st2) \<Rightarrow> (Inl e, st2)
                   | (Inr u, st2) \<Rightarrow>
                       (Inr (if last_state (base st2) = TRACKER_NOVIDEO c
                                \<or> last_updated (base st2)
                             then None else Some 1000),
                        st2)))
         | NoEvents \<Rightarrow>
             (case call_update_show_if_needed c
                     (last_state (base st1)) (last_show_tuple (base st1))
                     (log [Debug (SendingLastState (last_state (base st1))
                                    (last_show_tuple (base st1)))] st1) of
                (Inl e, st2) \<Rightarrow> (Inl e, st2)
              | (Inr u, st2) \<Rightarrow> (Inr timeout, st2))))"

text \<open>
  A run of the loop over the turns the outside offers. The loop has no bound of its own:
  \<open>Waiting timeout st\<close> is a loop that is still inside \<^verbatim>\<open>check_events(timeout)\<close> when the
  turns are used up, \<open>Returned\<close> one whose condition \<^verbatim>\<open>self.active\<close> was false, \<open>Raised\<close>
  one that an exception left.
\<close>

datatype 'a outcome = Waiting "nat option" 'a | Returned 'a | Raised exn 'a

definition set_inactive :: "('st, 'sh, 'x) tracker \<Rightarrow> ('st, 'sh, 'x) tracker" where
  "set_inactive st = st\<lparr>base := (base st)\<lparr>active := False\<rparr>\<rparr>"

fun while_active ::
  "('st, 'sh, 'x) collab \<Rightarrow> turn list \<Rightarrow> nat option \<Rightarrow> ('st, 'sh, 'x) tracker
     \<Rightarrow> ('st, 'sh, 'x) tracker outcome" where
  "while_active c [] timeout st =
     (if active (base st) then Waiting timeout st else Returned st)"
| "while_active c (t # ts) timeout st =
     (if active (base st) then
        (case loop_body c (polled t) timeout st of
           (Inl e, st1) \<Rightarrow> Raised e st1
         | (Inr timeout1, st1) \<Rightarrow>
             while_active c ts timeout1 (if stopped t then set_inactive st1 else st1))
      else Returned st)"

text \<open>
  \<^verbatim>\<open>observe\<close>: the set-up, the loop inside \<^verbatim>\<open>try\<close>, and the \<^verbatim>\<open>finally\<close> clause. The
  constructors of pyinotify and \<^verbatim>\<open>add_watch\<close> are taken to succeed; \<^verbatim>\<open>interval\<close> is not
  used by the source.
\<close>

definition finally_clause :: "('st, 'sh, 'x) tracker \<Rightarrow> ('st, 'sh, 'x) tracker" where
  "finally_clause st = log [NotifierStop, Info TrackerHasStopped] st"

definition observe ::
  "('st, 'sh, 'x) collab \<Rightarrow> turn list \<Rightarrow> string \<Rightarrow> nat \<Rightarrow> ('st, 'sh, 'x) tracker
     \<Rightarrow> ('st, 'sh, 'x) tracker outcome" where
  "observe c ts watch_dir interval st =
     (case while_active c ts None
             (log [Info UsingPyinotify, Debug (WatchingDirectory watch_dir),
                   AddWatch watch_dir] st) of
        Waiting timeout st1 \<Rightarrow> Waiting timeout st1
      | Returned st1 \<Rightarrow> Returned (finally_clause st1)
      | Raised e st1 \<Rightarrow> Raised e (finally_clause st1))"

section \<open>The specification's words, and examples\<close>

subsection \<open>The Process Correlator as the specification describes it\<close>

text \<open>
  The specification's account of the scan: the numeric entries of the process table in
  their order, the descriptors of each in their order, the first descriptor whose target
  is the file name and whose process has a command name that the pattern matches. A
  descriptor is scanned when the descriptors of its process could be listed and it and
  every descriptor before it could be resolved.
\<close>

definition resolvable :: "world \<Rightarrow> string \<Rightarrow> string \<Rightarrow> bool" where
  "resolvable w p fd = (case readlink w (fd_dir p @ fd) of Inl e \<Rightarrow> False | Inr f \<Rightarrow> True)"

definition scanned_descriptors :: "world \<Rightarrow> string \<Rightarrow> string list" where
  "scanned_descriptors w p =
     (case listdir w (fd_dir p) of
        Inl e \<Rightarrow> []
      | Inr fds \<Rightarrow> takeWhile (resolvable w p) fds)"

definition command_matches :: "world \<Rightarrow> (string \<Rightarrow> bool) \<Rightarrow> string \<Rightarrow> bool" where
  "command_matches w pat p =
     (case read_rb w (cmdline_path p) of
        Inl e \<Rightarrow> False
      | Inr cmdline \<Rightarrow> pat (partition0 cmdline))"

definition hit :: "world \<Rightarrow> (string \<Rightarrow> bool) \<Rightarrow> string \<Rightarrow> string \<Rightarrow> string \<Rightarrow> bool" where
  "hit w pat filename p fd =
     (readlink w (fd_dir p @ fd) = Inr filename \<and> command_matches w pat p)"

definition find_player ::
  "world \<Rightarrow> (string \<Rightarrow> bool) \<Rightarrow> string \<Rightarrow> string list \<Rightarrow> (string \<times> string) option" where
  "find_player w pat filename ps =
     List.find (\<lambda>(p, fd). hit w pat filename p fd)
       (concat (map (\<lambda>p. map (Pair p) (scanned_descriptors w p)) (filter isdigit ps)))"

definition found :: "(string \<times> string) option \<Rightarrow> string option \<times> string option" where
  "found m = (case m of None \<Rightarrow> (None, None) | Some (p, fd) \<Rightarrow> (Some p, Some fd))"

subsection \<open>Reading a trace\<close>

fun readlink_paths :: "('st, 'sh) action list \<Rightarrow> string list" where
  "readlink_paths [] = []"
| "readlink_paths (Readlink x # tr) = x # readlink_paths tr"
| "readlink_paths (a # tr) = readlink_paths tr"

text \<open>The calls of the operating system among the actions.\<close>

fun is_access :: "('st, 'sh) action \<Rightarrow> bool" where
  "is_access (Listdir x) = True"
| "is_access (Readlink x) = True"
| "is_access (ReadRb x) = True"
| "is_access (Lstat x) = True"
| "is_access a = False"

fun is_debug :: "('st, 'sh) action \<Rightarrow> bool" where
  "is_debug (Debug m) = True"
| "is_debug a = False"

text \<open>What an open event adds to the trace while a file is tracked.\<close>

definition already_tracked_log :: "world \<times> event \<Rightarrow> ('st, 'sh) action list" where
  "already_tracked_log we =
     (if ev_isdir (snd we) then []
      else [Debug (GotOpenEvent (ev_path (snd we)) (ev_name (snd we))), Debug AlreadyTracked])"

fun wait_timeouts :: "('st, 'sh) action list \<Rightarrow> nat option list" where
  "wait_timeouts [] = []"
| "wait_timeouts (CheckEvents timeout # tr) = timeout # wait_timeouts tr"
| "wait_timeouts (a # tr) = wait_timeouts tr"

text \<open>
  The state a run of the loop ended in, and what a run has added to the trace.
  \<open>extends st st1\<close>: the trace of \<open>st1\<close> is the trace of \<open>st\<close> with actions added, none of
  them \<^verbatim>\<open>notifier.stop()\<close>.
  \<open>stopped_at_exit\<close>: what was added ends with \<^verbatim>\<open>notifier.stop()\<close> and the message that
  the tracker has stopped, and \<^verbatim>\<open>notifier.stop()\<close> is not called before.
\<close>

fun outcome_state :: "'a outcome \<Rightarrow> 'a" where
  "outcome_state (Waiting timeout st) = st"
| "outcome_state (Returned st) = st"
| "outcome_state (Raised e st) = st"

definition added ::
  "('st, 'sh, 'x) tracker \<Rightarrow> ('st, 'sh, 'x) tracker \<Rightarrow> ('st, 'sh) action list" where
  "added st st1 = drop (length (trace st)) (trace st1)"

definition extends :: "('st, 'sh, 'x) tracker \<Rightarrow> ('st, 'sh, 'x) tracker \<Rightarrow> bool" where
  "extends st st1 =
     (take (length (trace st)) (trace st1) = trace st \<and> NotifierStop \<notin> set (added st st1))"

definition stopped_at_exit :: "('st, 'sh, 'x) tracker \<Rightarrow> ('st, 'sh, 'x) tracker \<Rightarrow> bool" where
  "stopped_at_exit st st1 =
     (take (length (trace st)) (trace st1) = trace st \<and>
      2 \<le> length (added st st1) \<and>
      drop (length (added st st1) - 2) (added st st1) = [NotifierStop, Info TrackerHasStopped] \<and>
      NotifierStop \<notin> set (take (length (added st st1) - 2) (added st st1)))"

subsection \<open>An example file system\<close>

text \<open>
  Process 1 belongs to another user, process 7 is a shell that holds the file, processes
  42 and 43 are players that hold it.
\<close>

definition example_cmdline :: string where
  "example_cmdline = ''/usr/bin/mpv'' @ [CHR 0x00] @ ''--fullscreen''"

definition example_world :: world where
  "example_world =
     \<lparr>listdir = (\<lambda>path.
         if path = ''/proc/'' then Inr [''self'', ''1'', ''7'', ''42'', ''43'']
         else if path = ''/proc/1/fd/'' then Inl PermissionError
         else if path = ''/proc/7/fd/'' then Inr [''3'', ''4'']
         else if path = ''/proc/42/fd/'' then Inr [''0'', ''5'', ''6'']
         else if path = ''/proc/43/fd/'' then Inr [''9'']
         else Inl FileNotFoundError),
      readlink = (\<lambda>path.
         if path = ''/proc/7/fd/3'' then Inr ''/media/show.mkv''
         else if path = ''/proc/7/fd/4'' then Inr ''/dev/null''
         else if path = ''/proc/42/fd/0'' then Inr ''/dev/null''
         else if path = ''/proc/42/fd/5'' then Inr ''/media/show.mkv''
         else if path = ''/proc/42/fd/6'' then Inr ''/media/show.mkv''
         else if path = ''/proc/43/fd/9'' then Inr ''/media/show.mkv''
         else Inl FileNotFoundError),
      read_rb = (\<lambda>path.
         if path = ''/proc/7/cmdline'' then Inr (''/bin/bash'' @ [CHR 0x00] @ ''mpv'')
         else if path = ''/proc/42/cmdline'' then Inr example_cmdline
         else if path = ''/proc/43/cmdline'' then Inr example_cmdline
         else Inl FileNotFoundError),
      lstat_islnk = (\<lambda>path.
         if path = ''/proc/42/fd/5'' then Inr True
         else if path = ''/proc/42/fd'' then Inr False
         else Inl FileNotFoundError)\<rparr>"

text \<open>
  Process 8 goes away during the scan: its descriptors are listed, the first is resolved,
  the second is gone.
\<close>

definition vanishing_world :: world where
  "vanishing_world =
     example_world
       \<lparr>listdir := (\<lambda>path.
          if path = ''/proc/'' then Inr [''8'', ''42'']
          else if path = ''/proc/8/fd/'' then Inr [''0'', ''1'']
          else listdir example_world path),
        readlink := (\<lambda>path.
          if path = ''/proc/8/fd/0'' then Inr ''/dev/null''
          else readlink example_world path)\<rparr>"

subsection \<open>An example tracker\<close>

text \<open>
  Collaborators that do not raise: states are \<open>0\<close> (no video) and \<open>1\<close> (playing), a show
  is the file name; \<^verbatim>\<open>update_show_if_needed\<close> records a new pair, and marks a pair it is
  given again as updated.
\<close>

definition example_collab :: "(int, string, unit) collab" where
  "example_collab =
     \<lparr>emit_signal = (\<lambda>sg pth nm b. (Inr (), b)),
      get_playing_show = (\<lambda>nm b.
         (Inr (case nm of None \<Rightarrow> (0, []) | Some n \<Rightarrow> (1, n)), b)),
      update_show_if_needed = (\<lambda>s sh b.
         (Inr (),
          if s = last_state b \<and> sh = last_show_tuple b then b\<lparr>last_updated := True\<rparr>
          else b\<lparr>last_state := s, last_show_tuple := sh, last_updated := False\<rparr>)),
      re_players = literal_search ''mpv'',
      TRACKER_NOVIDEO = 0\<rparr>"

definition example_tracker :: "(int, string, unit) tracker" where
  "example_tracker =
     \<lparr>open_file = (None, None, None),
      base = \<lparr>active = True, last_state = 0, last_show_tuple = [], last_updated = False,
               other = ()\<rparr>,
      trace = []\<rparr>"

definition open_event :: event where
  "open_event = \<lparr>ev_kind = IN_OPEN, ev_isdir = False, ev_path = ''/media'', ev_name = ''show.mkv''\<rparr>"

definition tracking_tracker :: "(int, string, unit) tracker" where
  "tracking_tracker =
     \<lparr>open_file = (Some ''/media/show.mkv'', Some ''42'', Some ''5''),
      base = \<lparr>active = True, last_state = 1, last_show_tuple = ''show.mkv'',
               last_updated = False, other = ()\<rparr>,
      trace = []\<rparr>"

definition other_open_event :: event where
  "other_open_event =
     \<lparr>ev_kind = IN_OPEN, ev_isdir = False, ev_path = ''/media'', ev_name = ''other.mkv''\<rparr>"

definition close_event :: event where
  "close_event =
     \<lparr>ev_kind = IN_CLOSE_NOWRITE, ev_isdir = False, ev_path = ''/media'',
      ev_name = ''show.mkv''\<rparr>"

definition directory_event :: event where
  "directory_event =
     \<lparr>ev_kind = IN_CREATE, ev_isdir = True, ev_path = ''/media'', ev_name = ''season2''\<rparr>"

definition create_event :: event where
  "create_event =
     \<lparr>ev_kind = IN_CREATE, ev_isdir = False, ev_path = ''/media'', ev_name = ''new.mkv''\<rparr>"

definition delete_event :: event where
  "delete_event =
     \<lparr>ev_kind = IN_DELETE, ev_isdir = False, ev_path = ''/media'', ev_name = ''old.mkv''\<rparr>"

definition closed_world :: world where
  "closed_world = example_world\<lparr>lstat_islnk := (\<lambda>path. Inl FileNotFoundError)\<rparr>"

text \<open>
  A file system whose \<^verbatim>\<open>/proc\<close> cannot be listed, and two turns of the loop: an open
  event for the file that process 42 plays, then a wait that times out.
\<close>

definition broken_world :: world where
  "broken_world = example_world\<lparr>listdir := (\<lambda>path. Inl PermissionError)\<rparr>"

definition example_turns :: "turn list" where
  "example_turns =
     [\<lparr>polled = Events (Inr [(example_world, open_event)]), stopped = False\<rparr>,
      \<lparr>polled = NoEvents, stopped = False\<rparr>]"

section \<open>Properties\<close>

subsection \<open>Lemmas about the scan\<close>

lemma snd_prepend [simp]: "snd (prepend tr r) = snd r"
  by (simp add: prepend_def)

lemma fst_prepend [simp]: "fst (prepend tr r) = tr @ fst r"
  by (simp add: prepend_def)

lemma find_no_command:
  "\<not> command_matches w pat p \<Longrightarrow> List.find (hit w pat filename p) fds = None"
  by (induction fds) (simp_all add: hit_def)

lemma fd_loop_find:
  "(case snd (fd_loop w pat filename p fds :: ('st, 'sh) action list \<times> _) of
      Inl e \<Rightarrow> None | Inr r \<Rightarrow> r)
   = List.find (hit w pat filename p) (takeWhile (resolvable w p) fds)"
proof (induction fds)
  case Nil
  show ?case by simp
next
  case (Cons fd fds)
  show ?case
  proof (cases "readlink w (fd_dir p @ fd)")
    case (Inl e)
    then show ?thesis by (simp add: resolvable_def)
  next
    case (Inr f)
    show ?thesis
    proof (cases "f = filename")
      case False
      with Inr Cons show ?thesis by (simp add: resolvable_def hit_def)
    next
      case True
      show ?thesis
      proof (cases "read_rb w (cmdline_path p)")
        case (Inl e)
        then have "\<not> command_matches w pat p" by (simp add: command_matches_def)
        then have "List.find (hit w pat filename p) (takeWhile (resolvable w p) (fd # fds)) = None"
          by (rule find_no_command)
        with Inl Inr True show ?thesis by simp
      next
        case c: (Inr cmdline)
        with Inr True Cons show ?thesis
          by (simp add: resolvable_def hit_def command_matches_def)
      qed
    qed
  qed
qed

lemma find_append_case:
  "List.find P (xs @ ys) = (case List.find P xs of None \<Rightarrow> List.find P ys | Some x \<Rightarrow> Some x)"
  by (induction xs) simp_all

lemma find_Pair:
  "List.find (\<lambda>(p, fd). Q p fd) (map (Pair p) fds) = map_option (Pair p) (List.find (Q p) fds)"
  by (induction fds) simp_all

lemma proc_loop_find:
  "snd (proc_loop w pat filename ps :: ('st, 'sh) action list \<times> _) = found (find_player w pat filename ps)"
proof (induction ps)
  case Nil
  show ?case by (simp add: find_player_def found_def)
next
  case (Cons p ps)
  show ?case
  proof (cases "isdigit p")
    case False
    with Cons show ?thesis by (simp add: find_player_def)
  next
    case True
    show ?thesis
    proof (cases "listdir w (fd_dir p)")
      case (Inl e)
      with True Cons show ?thesis
        by (simp add: find_player_def scanned_descriptors_def)
    next
      case (Inr fds)
      obtain tr r where L: "(fd_loop w pat filename p fds :: ('st, 'sh) action list \<times> _) = (tr, r)"
        by (cases "fd_loop w pat filename p fds :: ('st, 'sh) action list \<times> _")
      have F: "(case r of Inl e \<Rightarrow> None | Inr r \<Rightarrow> r)
               = List.find (hit w pat filename p) (scanned_descriptors w p)"
        using fd_loop_find [of w pat filename p fds, where ?'st = 'st and ?'sh = 'sh] Inr L
        by (simp add: scanned_descriptors_def)
      show ?thesis
        using True Inr L F Cons
        by (cases r)
           (auto simp add: find_player_def find_append_case find_Pair found_def
                 split: option.splits sum.splits)
    qed
  qed
qed

lemmas example_simps =
  is_being_played_def example_world_def isdigit_def fd_dir_def cmdline_path_def
  partition0_def example_cmdline_def prepend_def find_player_def scanned_descriptors_def
  resolvable_def hit_def command_matches_def found_def

lemma fd_loop_stops:
  fixes tr :: "('st, 'sh) action list"
  shows "fd_loop w pat filename p fds = (tr, Inr (Some fd)) \<Longrightarrow>
   read_rb w (cmdline_path p) = Inr cmdline \<Longrightarrow>
   \<exists>tr0. tr = tr0 @ [Readlink (fd_dir p @ fd), ReadRb (cmdline_path p),
                      Debug (PlayingProcess p (partition0 cmdline) cmdline)]"
proof (induction fds arbitrary: tr)
  case Nil
  then show ?case by simp
next
  case (Cons x fds)
  show ?case
  proof (cases "readlink w (fd_dir p @ x)")
    case (Inl e)
    with Cons.prems show ?thesis by simp
  next
    case (Inr f)
    obtain tr1 r1 where L: "(fd_loop w pat filename p fds :: ('st, 'sh) action list \<times> _) = (tr1, r1)"
      by (cases "fd_loop w pat filename p fds :: ('st, 'sh) action list \<times> _")
    show ?thesis
    proof (cases "f = filename \<and> pat (partition0 cmdline)")
      case True
      with Inr Cons.prems show ?thesis by auto
    next
      case False
      with Inr Cons.prems L have "r1 = Inr (Some fd)" and T: "\<exists>pre. tr = pre @ tr1"
        by (auto simp add: prepend_def split: if_splits)
      with L Cons.IH [of tr1] Cons.prems(2) obtain tr0 where
        "tr1 = tr0 @ [Readlink (fd_dir p @ fd), ReadRb (cmdline_path p),
                      Debug (PlayingProcess p (partition0 cmdline) cmdline)]"
        by blast
      with T show ?thesis by auto
    qed
  qed
qed

lemma proc_loop_stops:
  fixes tr :: "('st, 'sh) action list"
  shows "proc_loop w pat filename ps = (tr, (Some p, Some fd)) \<Longrightarrow>
   read_rb w (cmdline_path p) = Inr cmdline \<Longrightarrow>
   \<exists>tr0. tr = tr0 @ [Readlink (fd_dir p @ fd), ReadRb (cmdline_path p),
                      Debug (PlayingProcess p (partition0 cmdline) cmdline)]"
proof (induction ps arbitrary: tr)
  case Nil
  then show ?case by simp
next
  case (Cons q ps)
  let ?R = "proc_loop w pat filename ps :: ('st, 'sh) action list \<times> _"
  show ?case
  proof (cases "isdigit q")
    case False
    with Cons show ?thesis by simp
  next
    case True
    show ?thesis
    proof (cases "listdir w (fd_dir q)")
      case (Inl e)
      with True Cons.prems have "\<exists>pre. tr = pre @ fst ?R"
        and "snd ?R = (Some p, Some fd)"
        by (auto simp add: prepend_def)
      then show ?thesis
        using Cons.IH [of "fst ?R"] Cons.prems(2)
        by (metis append.assoc prod.collapse)
    next
      case (Inr fds)
      obtain tr2 r2 where F: "(fd_loop w pat filename q fds :: ('st, 'sh) action list \<times> _) = (tr2, r2)"
        by (cases "fd_loop w pat filename q fds :: ('st, 'sh) action list \<times> _")
      show ?thesis
      proof (cases "\<exists>x. r2 = Inr (Some x)")
        case True
        then obtain x where X: "r2 = Inr (Some x)" by blast
        with \<open>isdigit q\<close> Inr F Cons.prems have E: "q = p" "x = fd" "tr = Listdir (fd_dir q) # tr2"
          by auto
        from fd_loop_stops [of w pat filename p fds tr2 fd cmdline] F X E Cons.prems(2)
        obtain tr0 where "tr2 = tr0 @ [Readlink (fd_dir p @ fd), ReadRb (cmdline_path p),
                      Debug (PlayingProcess p (partition0 cmdline) cmdline)]"
          by auto
        with E show ?thesis by auto
      next
        case False
        with \<open>isdigit q\<close> Inr F Cons.prems
        have "\<exists>pre. tr = pre @ fst ?R"
          and "snd ?R = (Some p, Some fd)"
          by (auto simp add: prepend_def split: sum.splits option.splits)
        then show ?thesis
          using Cons.IH [of "fst ?R"] Cons.prems(2)
          by (metis append.assoc prod.collapse)
      qed
    qed
  qed
qed

lemma find_player_hit:
  "find_player w pat filename ps = Some (p, fd) \<Longrightarrow> hit w pat filename p fd"
  unfolding find_player_def by (auto simp add: find_Some_iff)

lemma fd_loop_readlinks:
  "\<forall>x \<in> set fds. resolvable w p x \<Longrightarrow>
   read_rb w (cmdline_path p) = Inr cmdline \<Longrightarrow> \<not> pat (partition0 cmdline) \<Longrightarrow>
   readlink_paths (fst (fd_loop w pat filename p fds :: ('st, 'sh) action list \<times> _))
     = map (\<lambda>x. fd_dir p @ x) fds
   \<and> snd (fd_loop w pat filename p fds :: ('st, 'sh) action list \<times> _) = Inr None"
proof (induction fds)
  case Nil
  show ?case by simp
next
  case (Cons x fds)
  then show ?case
    by (cases "readlink w (fd_dir p @ x)") (simp_all add: resolvable_def)
qed

lemma find_player_remove:
  assumes "\<not> command_matches w pat q"
  shows "find_player w pat filename (pre @ q # post) = find_player w pat filename (pre @ post)"
proof -
  have "List.find (\<lambda>(p, fd). hit w pat filename p fd) (map (Pair q) (scanned_descriptors w q)) = None"
    using assms by (simp add: find_Pair find_no_command)
  then show ?thesis
    by (cases "isdigit q") (simp_all add: find_player_def find_append_case split: option.splits)
qed

lemma fd_loop_failure_last:
  fixes tr :: "('st, 'sh) action list"
  shows "fd_loop w pat filename p fds = (tr, Inl e) \<Longrightarrow> tr \<noteq> [] \<and> is_access (last tr)"
proof (induction fds arbitrary: tr)
  case Nil
  then show ?case by simp
next
  case (Cons x fds)
  let ?R = "fd_loop w pat filename p fds :: ('st, 'sh) action list \<times> _"
  have IH: "snd ?R = Inl e \<Longrightarrow> fst ?R \<noteq> [] \<and> is_access (last (fst ?R))"
    using Cons.IH [of "fst ?R"] by (metis prod.collapse)
  from Cons.prems IH show ?case
    by (auto simp add: prepend_def split: sum.splits if_splits)
qed

lemma find_player_skip:
  assumes "List.find (hit w pat filename q) (scanned_descriptors w q) = None"
  shows "find_player w pat filename (pre @ q # post) = find_player w pat filename (pre @ post)"
proof -
  have "List.find (\<lambda>(p, fd). hit w pat filename p fd) (map (Pair q) (scanned_descriptors w q)) = None"
    using assms by (simp add: find_Pair)
  then show ?thesis
    by (cases "isdigit q") (simp_all add: find_player_def find_append_case split: option.splits)
qed

lemma find_player_None:
  "(\<forall>q \<in> set ps. \<forall>fd \<in> set (scanned_descriptors w q). \<not> hit w pat filename q fd)
   \<Longrightarrow> find_player w pat filename ps = None"
  by (auto simp add: find_player_def find_None_iff)

lemma is_being_played_snd:
  "listdir w ''/proc/'' = Inr ps \<Longrightarrow>
   snd (is_being_played w pat filename :: ('st, 'sh) action list \<times> _)
     = Inr (snd (proc_loop w pat filename ps :: ('st, 'sh) action list \<times> _))"
  by (simp add: is_being_played_def split: prod.splits)

subsection \<open>Lemmas about the tracker\<close>

lemma fd_loop_actions:
  "list_all (\<lambda>a. is_access a \<or> is_debug a)
     (fst (fd_loop w pat filename p fds :: ('st, 'sh) action list \<times> _))"
  by (induction fds) (simp_all split: sum.splits)

lemma fd_loop_actions_eq:
  fixes tr :: "('st, 'sh) action list"
  shows "fd_loop w pat filename p fds = (tr, r) \<Longrightarrow> list_all (\<lambda>a. is_access a \<or> is_debug a) tr"
  using fd_loop_actions [of w pat filename p fds, where ?'st = 'st and ?'sh = 'sh] by simp

lemma proc_loop_actions:
  "list_all (\<lambda>a. is_access a \<or> is_debug a)
     (fst (proc_loop w pat filename ps :: ('st, 'sh) action list \<times> _))"
proof (induction ps)
  case Nil
  show ?case by simp
next
  case (Cons p ps)
  then show ?case
    by (auto split: sum.splits prod.splits option.splits dest: fd_loop_actions_eq)
qed

lemma proc_loop_actions_eq:
  fixes tr :: "('st, 'sh) action list"
  shows "proc_loop w pat filename ps = (tr, r) \<Longrightarrow> list_all (\<lambda>a. is_access a \<or> is_debug a) tr"
  using proc_loop_actions [of w pat filename ps, where ?'st = 'st and ?'sh = 'sh] by simp

lemma is_being_played_actions:
  "list_all (\<lambda>a. is_access a \<or> is_debug a)
     (fst (is_being_played w pat filename :: ('st, 'sh) action list \<times> _))"
  by (auto simp add: is_being_played_def split: sum.splits prod.splits dest: proc_loop_actions_eq)

lemma log_simps [simp]:
  "open_file (log tr st) = open_file st"
  "base (log tr st) = base st"
  "trace (log tr st) = trace st @ tr"
  "log tr2 (log tr1 st) = log (tr1 @ tr2) st"
  by (simp_all add: log_def)

lemma call_emit_signal_open_file [simp]:
  "open_file (snd (call_emit_signal c sg pth nm st)) = open_file st"
  by (simp add: call_emit_signal_def split: prod.splits)

lemma call_get_playing_show_open_file [simp]:
  "open_file (snd (call_get_playing_show c nm st)) = open_file st"
  by (simp add: call_get_playing_show_def split: prod.splits)

lemma call_update_show_if_needed_open_file [simp]:
  "open_file (snd (call_update_show_if_needed c s sh st)) = open_file st"
  by (simp add: call_update_show_if_needed_def split: prod.splits)

lemma proc_open_tracking:
  "truthy (fst (open_file st)) \<Longrightarrow>
   proc_open c w pth nm st
     = (Inr (), st\<lparr>trace := trace st @ [Debug (GotOpenEvent pth nm), Debug AlreadyTracked]\<rparr>)"
  by (simp add: proc_open_def log_def)

lemma proc_close_different:
  "Some (path_join pth nm) \<noteq> fst (open_file st) \<Longrightarrow>
   proc_close c w pth nm st
     = (Inr (), log [Debug (GotCloseEvent pth nm), Sleep, Debug DifferentFileClosed] st)"
  by (cases "open_file st") (simp add: proc_close_def Let_def)

lemma proc_close_still_open:
  "open_file st = (Some (path_join pth nm), pid, fd) \<Longrightarrow> \<not> closed_handle w pid fd \<Longrightarrow>
   proc_close c w pth nm st
     = (Inr (), log [Debug (GotCloseEvent pth nm), Sleep, Lstat (handle_path pid fd),
                     Debug PidHasntClosed] st)"
  by (simp add: proc_close_def Let_def)

lemma proc_close_closed:
  "open_file st = (Some (path_join pth nm), pid, fd) \<Longrightarrow> closed_handle w pid fd \<Longrightarrow>
   proc_close c w pth nm st
     = (case call_emit_signal c Detected pth nm
               (log [Debug (GotCloseEvent pth nm), Sleep, Lstat (handle_path pid fd)] st) of
          (Inl e, st2) \<Rightarrow> (Inl e, st2)
        | (Inr u, st2) \<Rightarrow>
            (case call_get_playing_show c None (st2\<lparr>open_file := (None, None, None)\<rparr>) of
               (Inl e, st3) \<Rightarrow> (Inl e, st3)
             | (Inr (s, show_tuple), st3) \<Rightarrow> call_update_show_if_needed c s show_tuple st3))"
  by (simp add: proc_close_def Let_def)

lemma proc_close_open_file:
  "open_file (snd (proc_close c w pth nm st)) = open_file st
   \<or> open_file (snd (proc_close c w pth nm st)) = (None, None, None)"
proof -
  obtain a pid fd where O: "open_file st = (a, pid, fd)" by (cases "open_file st")
  show ?thesis
  proof (cases "Some (path_join pth nm) \<noteq> a")
    case True
    with O show ?thesis by (simp add: proc_close_different)
  next
    case A: False
    show ?thesis
    proof (cases "closed_handle w pid fd")
      case False
      with O A show ?thesis by (simp add: proc_close_still_open)
    next
      case True
      let ?st1 = "log [Debug (GotCloseEvent pth nm), Sleep, Lstat (handle_path pid fd)] st"
      obtain r2 st2 where E: "call_emit_signal c Detected pth nm ?st1 = (r2, st2)"
        by (cases "call_emit_signal c Detected pth nm ?st1")
      have "open_file (snd (call_emit_signal c Detected pth nm ?st1)) = open_file ?st1"
        by (rule call_emit_signal_open_file)
      with E have O2: "open_file st2 = open_file st" by simp
      let ?st2 = "st2\<lparr>open_file := (None, None, None)\<rparr>"
      obtain r3 st3 where G: "call_get_playing_show c None ?st2 = (r3, st3)"
        by (cases "call_get_playing_show c None ?st2")
      have "open_file (snd (call_get_playing_show c None ?st2)) = open_file ?st2"
        by (rule call_get_playing_show_open_file)
      with G have O3: "open_file st3 = (None, None, None)" by simp
      from O A True have "proc_close c w pth nm st
        = (case call_emit_signal c Detected pth nm ?st1 of
          (Inl e, st2) \<Rightarrow> (Inl e, st2)
        | (Inr u, st2) \<Rightarrow>
            (case call_get_playing_show c None (st2\<lparr>open_file := (None, None, None)\<rparr>) of
               (Inl e, st3) \<Rightarrow> (Inl e, st3)
             | (Inr (s, show_tuple), st3) \<Rightarrow> call_update_show_if_needed c s show_tuple st3))"
        by (simp add: proc_close_closed)
      with E G O2 O3 show ?thesis
        by (cases r2; cases r3) auto
    qed
  qed
qed

lemma log_Nil [simp]: "log [] st = st"
  by (simp add: log_def)

lemma opens_while_tracking:
  "truthy (fst (open_file st)) \<Longrightarrow> \<forall>we \<in> set wes. ev_kind (snd we) = IN_OPEN \<Longrightarrow>
   process_events c wes st = (Inr (), log (concat (map already_tracked_log wes)) st)"
proof (induction wes arbitrary: st)
  case Nil
  show ?case by simp
next
  case (Cons we wes)
  obtain w ev where W: "we = (w, ev)" by (cases we)
  with Cons.prems have K: "ev_kind ev = IN_OPEN" by simp
  have H: "EventHandler c we st = (Inr (), log (already_tracked_log we) st)"
    using W K Cons.prems(1)
    by (simp add: EventHandler_def process_IN_OPEN_def proc_open_tracking
          already_tracked_log_def log_def)
  have "process_events c wes (log (already_tracked_log we) st)
          = (Inr (), log (concat (map already_tracked_log wes)) (log (already_tracked_log we) st))"
    using Cons.prems by (intro Cons.IH) simp_all
  with H show ?case by simp
qed

lemma EventHandler_open_file:
  assumes "truthy (fst (open_file st))"
  shows "open_file (snd (EventHandler c we st)) = open_file st
         \<or> open_file (snd (EventHandler c we st)) = (None, None, None)"
proof -
  obtain w ev where W: "we = (w, ev)" by (cases we)
  show ?thesis
    using W assms proc_close_open_file [of c w "ev_path ev" "ev_name ev" st]
    by (cases "ev_kind ev")
       (auto simp add: EventHandler_def process_IN_OPEN_def process_IN_CLOSE_NOWRITE_def
          process_IN_CLOSE_WRITE_def process_IN_CREATE_def process_IN_MOVED_TO_def
          process_IN_MOVED_FROM_def process_IN_DELETE_def proc_open_tracking)
qed

lemmas tracker_example_simps =
  example_collab_def example_tracker_def tracking_tracker_def open_event_def
  other_open_event_def close_event_def closed_world_def directory_event_def
  create_event_def delete_event_def

subsection \<open>Lemmas about the trace of a run\<close>

lemma extends_iff:
  "extends st st1 = (\<exists>tr. trace st1 = trace st @ tr \<and> NotifierStop \<notin> set tr)"
proof
  assume "extends st st1"
  then have "trace st1 = trace st @ added st st1 \<and> NotifierStop \<notin> set (added st st1)"
    unfolding extends_def added_def by (metis append_take_drop_id)
  then show "\<exists>tr. trace st1 = trace st @ tr \<and> NotifierStop \<notin> set tr" by blast
next
  assume "\<exists>tr. trace st1 = trace st @ tr \<and> NotifierStop \<notin> set tr"
  then show "extends st st1" by (auto simp add: extends_def added_def)
qed

lemma extends_refl [simp]: "extends st st"
  by (simp add: extends_iff)

lemma extends_trans: "extends st st1 \<Longrightarrow> extends st1 st2 \<Longrightarrow> extends st st2"
  by (auto simp add: extends_iff)

lemma extends_log: "NotifierStop \<notin> set tr \<Longrightarrow> extends st (log tr st)"
  by (simp add: extends_iff)

lemma extends_open_file [simp]: "extends st (st1\<lparr>open_file := x\<rparr>) = extends st st1"
  by (simp add: extends_iff)

lemma extends_open_file_left [simp]: "extends (st\<lparr>open_file := x\<rparr>) st1 = extends st st1"
  by (simp add: extends_iff)

lemma extends_set_inactive [simp]: "extends st (set_inactive st1) = extends st st1"
  by (simp add: extends_iff set_inactive_def)

lemma extends_call_emit_signal: "extends st (snd (call_emit_signal c sg pth nm st))"
  by (simp add: extends_iff call_emit_signal_def split: prod.splits)

lemma extends_call_get_playing_show: "extends st (snd (call_get_playing_show c nm st))"
  by (simp add: extends_iff call_get_playing_show_def split: prod.splits)

lemma extends_call_update: "extends st (snd (call_update_show_if_needed c s sh st))"
  by (simp add: extends_iff call_update_show_if_needed_def split: prod.splits)

lemma scan_no_stop:
  fixes tr :: "('st, 'sh) action list"
  shows "list_all (\<lambda>a. is_access a \<or> is_debug a) tr \<Longrightarrow> NotifierStop \<notin> set tr"
  by (induction tr) auto

lemma extends_proc_open:
  fixes st :: "('st, 'sh, 'x) tracker"
  shows "extends st (snd (proc_open c w pth nm st))"
proof -
  let ?st1 = "log [Debug (GotOpenEvent pth nm)] st"
  obtain tr r where S: "(is_being_played w (re_players c) (path_join pth nm)
                          :: ('st, 'sh) action list \<times> _) = (tr, r)"
    by (cases "is_being_played w (re_players c) (path_join pth nm) :: ('st, 'sh) action list \<times> _")
  have Q: "NotifierStop \<notin> set tr"
    using is_being_played_actions [of w "re_players c" "path_join pth nm", where ?'st = 'st and ?'sh = 'sh] S
    by (simp add: scan_no_stop)
  have L: "extends st (log tr ?st1)"
    using Q by (simp add: extends_log)
  show ?thesis
  proof (cases "truthy (fst (open_file st))")
    case True
    then show ?thesis by (simp add: proc_open_tracking extends_iff)
  next
    case F: False
    show ?thesis
    proof (cases r)
      case (Inl e)
      with F S L show ?thesis by (simp add: proc_open_def Let_def)
    next
      case (Inr pf)
      obtain pid fd where P: "pf = (pid, fd)" by (cases pf)
      show ?thesis
      proof (cases "truthy pid")
        case False
        with F S Inr P Q show ?thesis by (simp add: proc_open_def Let_def extends_log)
      next
        case True
        let ?e = "call_emit_signal c Detected pth nm (log tr ?st1)"
        have E: "extends st (snd ?e)"
          using L extends_call_emit_signal [of "log tr ?st1" c Detected pth nm]
          by (rule extends_trans)
        let ?st2 = "(snd ?e)\<lparr>open_file := (Some (path_join pth nm), pid, fd)\<rparr>"
        let ?g = "call_get_playing_show c (Some nm) ?st2"
        have G: "extends st (snd ?g)"
          using E extends_call_get_playing_show [of ?st2 c "Some nm"]
          by (auto intro: extends_trans)
        have U: "extends st (snd (call_update_show_if_needed c s sh
                   (log [Debug (GotStatus s sh)] (snd ?g))))" for s sh
          using G extends_log [of "[Debug (GotStatus s sh)]" "snd ?g"]
            extends_call_update [of "log [Debug (GotStatus s sh)] (snd ?g)" c s sh]
          by (auto intro: extends_trans)
        have "proc_open c w pth nm st
                = (case ?e of
                     (Inl e, st2) \<Rightarrow> (Inl e, st2)
                   | (Inr u, st2) \<Rightarrow>
                       (case call_get_playing_show c (Some nm)
                               (st2\<lparr>open_file := (Some (path_join pth nm), pid, fd)\<rparr>) of
                          (Inl e, st3) \<Rightarrow> (Inl e, st3)
                        | (Inr (s, show_tuple), st3) \<Rightarrow>
                            call_update_show_if_needed c s show_tuple
                              (log [Debug (GotStatus s show_tuple)] st3)))"
          using F S Inr P True by (simp add: proc_open_def Let_def)
        with E G U show ?thesis
          by (cases ?e; cases "fst ?e"; cases ?g; cases "fst ?g") auto
      qed
    qed
  qed
qed

lemma extends_proc_close:
  fixes st :: "('st, 'sh, 'x) tracker"
  shows "extends st (snd (proc_close c w pth nm st))"
proof -
  obtain a pid fd where O: "open_file st = (a, pid, fd)" by (cases "open_file st")
  show ?thesis
  proof (cases "Some (path_join pth nm) \<noteq> a")
    case True
    with O show ?thesis by (simp add: proc_close_different extends_log)
  next
    case A: False
    show ?thesis
    proof (cases "closed_handle w pid fd")
      case False
      with O A show ?thesis by (simp add: proc_close_still_open extends_log)
    next
      case True
      let ?st1 = "log [Debug (GotCloseEvent pth nm), Sleep, Lstat (handle_path pid fd)] st"
      let ?e = "call_emit_signal c Detected pth nm ?st1"
      have E: "extends st (snd ?e)"
        using extends_log [of "[Debug (GotCloseEvent pth nm), Sleep, Lstat (handle_path pid fd)]" st]
          extends_call_emit_signal [of ?st1 c Detected pth nm]
        by (auto intro: extends_trans)
      let ?g = "call_get_playing_show c None ((snd ?e)\<lparr>open_file := (None, None, None)\<rparr>)"
      have G: "extends st (snd ?g)"
        using E extends_call_get_playing_show [of "(snd ?e)\<lparr>open_file := (None, None, None)\<rparr>" c None]
        by (auto intro: extends_trans)
      have U: "extends st (snd (call_update_show_if_needed c s sh (snd ?g)))" for s sh
        using G extends_call_update [of "snd ?g" c s sh]
        by (auto intro: extends_trans)
      have "proc_close c w pth nm st
        = (case ?e of
          (Inl e, st2) \<Rightarrow> (Inl e, st2)
        | (Inr u, st2) \<Rightarrow>
            (case call_get_playing_show c None (st2\<lparr>open_file := (None, None, None)\<rparr>) of
               (Inl e, st3) \<Rightarrow> (Inl e, st3)
             | (Inr (s, show_tuple), st3) \<Rightarrow> call_update_show_if_needed c s show_tuple st3))"
        using O A True by (simp add: proc_close_closed)
      with E G U show ?thesis
        by (cases ?e; cases "fst ?e"; cases ?g; cases "fst ?g") auto
    qed
  qed
qed

lemma extends_EventHandler:
  fixes st :: "('st, 'sh, 'x) tracker"
  shows "extends st (snd (EventHandler c we st))"
proof -
  obtain w ev where W: "we = (w, ev)" by (cases we)
  show ?thesis
    using W extends_proc_open [of st c w "ev_path ev" "ev_name ev"]
      extends_proc_close [of st c w "ev_path ev" "ev_name ev"]
      extends_call_emit_signal [of st c Detected "ev_path ev" "ev_name ev"]
      extends_call_emit_signal [of st c Removed "ev_path ev" "ev_name ev"]
    by (cases "ev_kind ev")
       (simp_all add: EventHandler_def process_IN_OPEN_def process_IN_CLOSE_NOWRITE_def
          process_IN_CLOSE_WRITE_def process_IN_CREATE_def process_IN_MOVED_TO_def
          process_IN_MOVED_FROM_def process_IN_DELETE_def)
qed

lemma extends_process_events:
  fixes st :: "('st, 'sh, 'x) tracker"
  shows "extends st (snd (process_events c wes st))"
proof (induction wes arbitrary: st)
  case Nil
  show ?case by simp
next
  case (Cons we wes)
  obtain r st1 where H: "EventHandler c we st = (r, st1)" by (cases "EventHandler c we st")
  with extends_EventHandler [of st c we] have E: "extends st st1" by simp
  show ?case
  proof (cases r)
    case (Inl e)
    with H E show ?thesis by simp
  next
    case (Inr u)
    with H E Cons.IH [of st1] show ?thesis by (auto intro: extends_trans)
  qed
qed

lemma extends_loop_body:
  fixes st :: "('st, 'sh, 'x) tracker"
  shows "extends (log [CheckEvents timeout] st) (snd (loop_body c pl timeout st))"
proof (cases pl)
  case (CheckRaises e)
  then show ?thesis by (simp add: loop_body_def Let_def)
next
  case NoEvents
  let ?st1 = "log [CheckEvents timeout] st"
  let ?st2 = "log [Debug (SendingLastState (last_state (base ?st1)) (last_show_tuple (base ?st1)))] ?st1"
  have "extends ?st1 (snd (call_update_show_if_needed c (last_state (base ?st1))
          (last_show_tuple (base ?st1)) ?st2))"
    using extends_log [of "[Debug (SendingLastState (last_state (base ?st1)) (last_show_tuple (base ?st1)))]" ?st1]
      extends_call_update [of ?st2 c "last_state (base ?st1)" "last_show_tuple (base ?st1)"]
    by (auto intro: extends_trans)
  with NoEvents show ?thesis
    by (auto simp add: loop_body_def Let_def split: prod.splits sum.splits)
next
  case (Events r)
  show ?thesis
  proof (cases r)
    case (Inl e)
    with Events show ?thesis
      using extends_log [of "[ReadEvents]" "log [CheckEvents timeout] st"]
      by (simp add: loop_body_def Let_def)
  next
    case (Inr wes)
    let ?st1 = "log [CheckEvents timeout] st"
    have "extends ?st1 (snd (process_events c wes (log [ReadEvents, ProcessEvents] ?st1)))"
      using extends_log [of "[ReadEvents, ProcessEvents]" ?st1]
        extends_process_events [of "log [ReadEvents, ProcessEvents] ?st1" c wes]
      by (auto intro: extends_trans)
    with Events Inr show ?thesis
      by (auto simp add: loop_body_def Let_def split: prod.splits sum.splits)
  qed
qed

lemma extends_loop_body':
  fixes st :: "('st, 'sh, 'x) tracker"
  shows "extends st (snd (loop_body c pl timeout st))"
  using extends_log [of "[CheckEvents timeout]" st] extends_loop_body [of timeout st c pl]
  by (auto intro: extends_trans)

lemma extends_while_active:
  fixes st :: "('st, 'sh, 'x) tracker"
  shows "extends st (outcome_state (while_active c ts timeout st))"
proof (induction ts arbitrary: timeout st)
  case Nil
  show ?case by simp
next
  case (Cons t ts)
  obtain r st1 where B: "loop_body c (polled t) timeout st = (r, st1)"
    by (cases "loop_body c (polled t) timeout st")
  with extends_loop_body' [of st c "polled t" timeout] have E: "extends st st1" by simp
  show ?case
  proof (cases "active (base st)")
    case False
    then show ?thesis by simp
  next
    case True
    show ?thesis
    proof (cases r)
      case (Inl e)
      with True B E show ?thesis by simp
    next
      case (Inr timeout1)
      have "extends st1 (outcome_state (while_active c ts timeout1
              (if stopped t then set_inactive st1 else st1)))"
        using Cons.IH [where timeout = timeout1
                         and st = "if stopped t then set_inactive st1 else st1"]
        by (simp add: extends_iff set_inactive_def split: if_splits)
      with True B Inr E show ?thesis by (auto intro: extends_trans)
    qed
  qed
qed

lemma extends_added:
  "extends st st1 \<Longrightarrow>
   take (length (trace st)) (trace st1) = trace st \<and> NotifierStop \<notin> set (added st st1)"
  by (auto simp add: extends_iff added_def)

lemma stopped_at_exit_finally:
  assumes "extends st st1"
  shows "stopped_at_exit st (finally_clause st1)"
proof -
  from assms obtain tr where T: "trace st1 = trace st @ tr" "NotifierStop \<notin> set tr"
    by (auto simp add: extends_iff)
  then show ?thesis
    by (simp add: stopped_at_exit_def added_def finally_clause_def)
qed

lemmas run_simps =
  observe_def loop_body_def Let_def finally_clause_def set_inactive_def
  EventHandler_def process_IN_OPEN_def proc_open_def truthy_def path_join_def
  call_emit_signal_def call_get_playing_show_def call_update_show_if_needed_def
  tracker_example_simps example_simps

lemma timeout_resubmits:
  fixes st :: "('st, 'sh, 'x) tracker"
  assumes "active (base st)" and "polled t = NoEvents"
  shows "added st (outcome_state (while_active c [t] timeout st))
           = [CheckEvents timeout,
              Debug (SendingLastState (last_state (base st)) (last_show_tuple (base st))),
              UpdateShowIfNeeded (last_state (base st)) (last_show_tuple (base st))]"
proof -
  let ?u = "update_show_if_needed c (last_state (base st)) (last_show_tuple (base st)) (base st)"
  let ?tr = "[CheckEvents timeout,
              Debug (SendingLastState (last_state (base st)) (last_show_tuple (base st))),
              UpdateShowIfNeeded (last_state (base st)) (last_show_tuple (base st))]"
  have B: "loop_body c (polled t) timeout st
             = (case fst ?u of Inl e \<Rightarrow> Inl e | Inr u \<Rightarrow> Inr timeout,
                (log ?tr st)\<lparr>base := snd ?u\<rparr>)"
    using assms(2)
    by (cases ?u; cases "fst ?u")
       (simp_all add: loop_body_def Let_def call_update_show_if_needed_def)
  show ?thesis
    using assms(1) B
    by (cases "fst ?u") (simp_all add: added_def set_inactive_def log_def)
qed

subsection \<open>The Process Correlator\<close>

text \<open>
  Claim C4. For every process table and file name, \<^verbatim>\<open>_is_being_played\<close> returns the
  process and descriptor of the first scanned descriptor whose target equals the file name
  (the strings are compared as they are) and whose process has a command line whose part
  before the first null byte the pattern matches, and \<open>(None, None)\<close> when there is none.
  The scan stops there: the last things it does are to resolve that descriptor, to read
  that command line and to write the debug message about that process.
\<close>
theorem is_being_played_first_match:
  assumes "listdir w ''/proc/'' = Inr ps"
  shows "snd (is_being_played w pat filename :: ('st, 'sh) action list \<times> _)
           = Inr (found (find_player w pat filename ps))
         \<and> (\<forall>p fd cmdline tr.
               find_player w pat filename ps = Some (p, fd) \<and>
               read_rb w (cmdline_path p) = Inr cmdline \<and>
               tr = (fst (is_being_played w pat filename) :: ('st, 'sh) action list) \<longrightarrow>
               drop (length tr - 3) tr
                 = [Readlink (fd_dir p @ fd), ReadRb (cmdline_path p),
                    Debug (PlayingProcess p (partition0 cmdline) cmdline)])"
proof -
  obtain tr1 r1 where L: "(proc_loop w pat filename ps :: ('st, 'sh) action list \<times> _) = (tr1, r1)"
    by (cases "proc_loop w pat filename ps :: ('st, 'sh) action list \<times> _")
  have R: "r1 = found (find_player w pat filename ps)"
    using proc_loop_find [of w pat filename ps, where ?'st = 'st and ?'sh = 'sh] L by simp
  have A: "snd (is_being_played w pat filename :: ('st, 'sh) action list \<times> _)
           = Inr (found (find_player w pat filename ps))"
    using assms L R by (simp add: is_being_played_def)
  have B: "drop (length tr - 3) tr
                 = [Readlink (fd_dir p @ fd), ReadRb (cmdline_path p),
                    Debug (PlayingProcess p (partition0 cmdline) cmdline)]"
    if H: "find_player w pat filename ps = Some (p, fd)"
      "read_rb w (cmdline_path p) = Inr cmdline"
      "tr = (fst (is_being_played w pat filename) :: ('st, 'sh) action list)"
    for p fd cmdline tr
  proof -
    from H(1) R have "r1 = (Some p, Some fd)" by (simp add: found_def)
    with L proc_loop_stops [of w pat filename ps tr1 p fd cmdline] H(2)
    obtain tr0 where "tr1 = tr0 @ [Readlink (fd_dir p @ fd), ReadRb (cmdline_path p),
                    Debug (PlayingProcess p (partition0 cmdline) cmdline)]"
      by blast
    with H(3) assms L show ?thesis by (simp add: is_being_played_def)
  qed
  from A B show ?thesis by blast
qed

theorem is_being_played_first_match_witness:
  "snd (is_being_played example_world (literal_search ''mpv'') ''/media/show.mkv''
          :: (unit, unit) action list \<times> _) = Inr (Some ''42'', Some ''5'')
   \<and> drop 10 (fst (is_being_played example_world (literal_search ''mpv'') ''/media/show.mkv'')
          :: (unit, unit) action list)
      = [Readlink ''/proc/42/fd/5'', ReadRb ''/proc/42/cmdline'',
         Debug (PlayingProcess ''42'' ''/usr/bin/mpv'' example_cmdline)]"
proof -
  have P: "listdir example_world ''/proc/'' = Inr [''self'', ''1'', ''7'', ''42'', ''43'']"
    by (simp add: example_world_def)
  have F: "find_player example_world (literal_search ''mpv'') ''/media/show.mkv''
             [''self'', ''1'', ''7'', ''42'', ''43''] = Some (''42'', ''5'')"
    by (simp add: example_simps)
  have C: "read_rb example_world (cmdline_path ''42'') = Inr example_cmdline"
    by (simp add: example_world_def cmdline_path_def)
  have N: "length (fst (is_being_played example_world (literal_search ''mpv'') ''/media/show.mkv'')
          :: (unit, unit) action list) = 13"
    by (simp add: example_simps)
  from is_being_played_first_match [OF P, of "literal_search ''mpv''" "''/media/show.mkv''",
     where ?'st = unit and ?'sh = unit] F C N
  show ?thesis
    by (simp add: found_def fd_dir_def cmdline_path_def partition0_def example_cmdline_def)
qed

text \<open>
  Claim C10. A process that holds the file open and whose command name the pattern does
  not match neither ends the scan nor decides its result: the result for the table is the
  result for the table without that process, so a matching process later in the table is
  still returned; and when all its descriptors can be resolved, the scan resolves every one
  of them, in order, and its loop over them runs to its end.
\<close>
theorem holder_without_pattern_does_not_end_scan:
  assumes "isdigit q"
    and "listdir w (fd_dir q) = Inr fds"
    and "fd \<in> set fds"
    and "readlink w (fd_dir q @ fd) = Inr filename"
    and "read_rb w (cmdline_path q) = Inr cmdline"
    and "\<not> pat (partition0 cmdline)"
  shows "snd (proc_loop w pat filename (pre @ q # post) :: ('st, 'sh) action list \<times> _)
           = snd (proc_loop w pat filename (pre @ post) :: ('st, 'sh) action list \<times> _)
         \<and> ((\<forall>x \<in> set fds. resolvable w q x) \<longrightarrow>
              readlink_paths (fst (fd_loop w pat filename q fds :: ('st, 'sh) action list \<times> _))
                = map (\<lambda>x. fd_dir q @ x) fds
              \<and> snd (fd_loop w pat filename q fds :: ('st, 'sh) action list \<times> _) = Inr None)"
proof -
  from assms(5,6) have N: "\<not> command_matches w pat q"
    by (simp add: command_matches_def)
  have A: "snd (proc_loop w pat filename (pre @ q # post) :: ('st, 'sh) action list \<times> _)
           = snd (proc_loop w pat filename (pre @ post) :: ('st, 'sh) action list \<times> _)"
    by (simp only: proc_loop_find find_player_remove [OF N])
  from A assms(5,6) fd_loop_readlinks [of fds w q cmdline pat filename, where ?'st = 'st and ?'sh = 'sh]
  show ?thesis by blast
qed

theorem holder_without_pattern_does_not_end_scan_witness:
  "snd (proc_loop example_world (literal_search ''mpv'') ''/media/show.mkv''
          ([''self'', ''1''] @ ''7'' # [''42'', ''43'']) :: (unit, unit) action list \<times> _)
     = (Some ''42'', Some ''5'')
   \<and> readlink_paths (fst (fd_loop example_world (literal_search ''mpv'') ''/media/show.mkv''
          ''7'' [''3'', ''4''] :: (unit, unit) action list \<times> _))
     = [''/proc/7/fd/3'', ''/proc/7/fd/4'']"
proof -
  have H: "isdigit ''7''"
    "listdir example_world (fd_dir ''7'') = Inr [''3'', ''4'']"
    "''3'' \<in> set [''3'', ''4'']"
    "readlink example_world (fd_dir ''7'' @ ''3'') = Inr ''/media/show.mkv''"
    "read_rb example_world (cmdline_path ''7'') = Inr (''/bin/bash'' @ [CHR 0x00] @ ''mpv'')"
    "\<not> literal_search ''mpv'' (partition0 (''/bin/bash'' @ [CHR 0x00] @ ''mpv''))"
    by (simp_all add: example_simps)
  have R: "\<forall>x \<in> set [''3'', ''4'']. resolvable example_world ''7'' x"
    by (simp add: example_simps)
  have E: "snd (proc_loop example_world (literal_search ''mpv'') ''/media/show.mkv''
          ([''self'', ''1''] @ [''42'', ''43'']) :: (unit, unit) action list \<times> _)
     = (Some ''42'', Some ''5'')"
    by (simp add: example_simps)
  from H R E
    holder_without_pattern_does_not_end_scan [where ?'st = unit and ?'sh = unit, where q = "''7''" and w = example_world
         and fds = "[''3'', ''4'']" and fd = "''3''" and filename = "''/media/show.mkv''"
         and cmdline = "''/bin/bash'' @ [CHR 0x00] @ ''mpv''"
         and pat = "literal_search ''mpv''" and pre = "[''self'', ''1'']"
         and post = "[''42'', ''43'']"]
  show ?thesis by (simp add: fd_dir_def)
qed

text \<open>
  Claim C6, as the code has it. A numeric process whose inspection fails (its descriptors
  cannot be listed, or a descriptor or the command line cannot be read) is skipped: the
  result for the table is the result for the table without it, and the scan goes on with
  the process after it. The failure is swallowed without a message: what the scan did for
  the process ends with the call that failed. No such failure leaves \<^verbatim>\<open>_is_being_played\<close>
  as an exception, and when no scanned descriptor of the other processes matches, the
  result is \<open>(None, None)\<close>.
\<close>
theorem failing_process_is_skipped:
  fixes tr :: "('st, 'sh) action list"
  assumes "isdigit p"
    and "listdir w (fd_dir p) = Inl e
         \<or> (listdir w (fd_dir p) = Inr fds \<and> fd_loop w pat filename p fds = (tr, Inl e))"
  shows "snd (proc_loop w pat filename (pre @ p # post) :: ('st, 'sh) action list \<times> _)
           = snd (proc_loop w pat filename (pre @ post) :: ('st, 'sh) action list \<times> _)
    \<and> (listdir w (fd_dir p) = Inl e \<longrightarrow>
           proc_loop w pat filename (p # post)
             = prepend [Listdir (fd_dir p) :: ('st, 'sh) action] (proc_loop w pat filename post))
    \<and> (listdir w (fd_dir p) = Inr fds \<longrightarrow>
           proc_loop w pat filename (p # post)
             = prepend (Listdir (fd_dir p) # tr) (proc_loop w pat filename post)
           \<and> is_access (last (Listdir (fd_dir p) # tr)))
    \<and> (listdir w ''/proc/'' = Inr (pre @ p # post) \<longrightarrow>
           \<not> isl (snd (is_being_played w pat filename :: ('st, 'sh) action list \<times> _)))
    \<and> (listdir w ''/proc/'' = Inr (pre @ p # post) \<and>
         (\<forall>q \<in> set (pre @ post). \<forall>fd \<in> set (scanned_descriptors w q).
            \<not> hit w pat filename q fd) \<longrightarrow>
           snd (is_being_played w pat filename :: ('st, 'sh) action list \<times> _) = Inr (None, None))"
  (is "?A \<and> ?B \<and> ?C \<and> ?D \<and> ?E")
proof -
  have N: "List.find (hit w pat filename p) (scanned_descriptors w p) = None"
  proof (cases "listdir w (fd_dir p)")
    case (Inl a)
    then show ?thesis by (simp add: scanned_descriptors_def)
  next
    case (Inr a)
    with assms(2) have "a = fds" and F: "fd_loop w pat filename p fds = (tr, Inl e)" by auto
    with fd_loop_find [of w pat filename p fds, where ?'st = 'st and ?'sh = 'sh] Inr
    show ?thesis by (simp add: scanned_descriptors_def)
  qed
  have A: ?A
    by (simp only: proc_loop_find find_player_skip [OF N])
  have B: ?B
    using assms(1) by simp
  have C: ?C
    using assms fd_loop_failure_last [of w pat filename p fds tr e] by auto
  have D: ?D
    by (simp add: is_being_played_snd)
  have E: ?E
  proof
    assume H: "listdir w ''/proc/'' = Inr (pre @ p # post) \<and>
         (\<forall>q \<in> set (pre @ post). \<forall>fd \<in> set (scanned_descriptors w q).
            \<not> hit w pat filename q fd)"
    then have "find_player w pat filename (pre @ post) = None"
      by (intro find_player_None) blast
    with A have "snd (proc_loop w pat filename (pre @ p # post) :: ('st, 'sh) action list \<times> _)
           = (None, None)"
      by (simp add: proc_loop_find found_def)
    with H show "snd (is_being_played w pat filename :: ('st, 'sh) action list \<times> _) = Inr (None, None)"
      by (simp add: is_being_played_snd)
  qed
  from A B C D E show ?thesis by blast
qed

theorem failing_process_is_skipped_witness:
  "snd (proc_loop example_world (literal_search ''mpv'') ''/media/show.mkv''
          ([''self''] @ ''1'' # [''7'', ''42'', ''43'']) :: (unit, unit) action list \<times> _)
     = (Some ''42'', Some ''5'')
   \<and> proc_loop example_world (literal_search ''mpv'') ''/media/show.mkv'' (''1'' # [''7''])
     = ([Listdir ''/proc/1/fd/'', Listdir ''/proc/7/fd/'', Readlink ''/proc/7/fd/3'',
         ReadRb ''/proc/7/cmdline'',
         Debug (PlayingProcess ''7'' ''/bin/bash'' (''/bin/bash'' @ [CHR 0x00] @ ''mpv'')),
         Debug (NotReadByPlayer ''/bin/bash''), Readlink ''/proc/7/fd/4'',
         Debug CouldntFindPlayingProcess :: (unit, unit) action], (None, None))
   \<and> proc_loop vanishing_world (literal_search ''mpv'') ''/media/show.mkv'' (''8'' # [''42''])
     = ([Listdir ''/proc/8/fd/'', Readlink ''/proc/8/fd/0'', Readlink ''/proc/8/fd/1'',
         Listdir ''/proc/42/fd/'', Readlink ''/proc/42/fd/0'', Readlink ''/proc/42/fd/5'',
         ReadRb ''/proc/42/cmdline'',
         Debug (PlayingProcess ''42'' ''/usr/bin/mpv'' example_cmdline) :: (unit, unit) action],
        (Some ''42'', Some ''5''))
   \<and> snd (is_being_played vanishing_world (literal_search ''mpv'') ''/media/none.mkv''
        :: (unit, unit) action list \<times> _) = Inr (None, None)"
proof -
  have H: "isdigit ''1''"
    "listdir example_world (fd_dir ''1'') = Inl PermissionError
     \<or> (listdir example_world (fd_dir ''1'') = Inr []
        \<and> fd_loop example_world (literal_search ''mpv'') ''/media/show.mkv'' ''1'' []
            = ([] :: (unit, unit) action list, Inl PermissionError))"
    by (simp_all add: example_simps)
  have L: "listdir example_world (fd_dir ''1'') = Inl PermissionError"
    by (simp add: example_simps)
  have E: "snd (proc_loop example_world (literal_search ''mpv'') ''/media/show.mkv''
          ([''self''] @ [''7'', ''42'', ''43'']) :: (unit, unit) action list \<times> _)
     = (Some ''42'', Some ''5'')"
    by (simp add: example_simps)
  have T: "proc_loop example_world (literal_search ''mpv'') ''/media/show.mkv'' [''7'']
     = ([Listdir ''/proc/7/fd/'', Readlink ''/proc/7/fd/3'',
         ReadRb ''/proc/7/cmdline'',
         Debug (PlayingProcess ''7'' ''/bin/bash'' (''/bin/bash'' @ [CHR 0x00] @ ''mpv'')),
         Debug (NotReadByPlayer ''/bin/bash''), Readlink ''/proc/7/fd/4'',
         Debug CouldntFindPlayingProcess :: (unit, unit) action], (None, None))"
    by (simp add: example_simps)
  from failing_process_is_skipped [OF H, of "[''self'']" "[''7'', ''42'', ''43'']"] E
    failing_process_is_skipped [OF H, of "[]" "[''7'']"] L T
  have 0: "snd (proc_loop example_world (literal_search ''mpv'') ''/media/show.mkv''
          ([''self''] @ ''1'' # [''7'', ''42'', ''43'']) :: (unit, unit) action list \<times> _)
     = (Some ''42'', Some ''5'')
   \<and> proc_loop example_world (literal_search ''mpv'') ''/media/show.mkv'' (''1'' # [''7''])
     = ([Listdir ''/proc/1/fd/'', Listdir ''/proc/7/fd/'', Readlink ''/proc/7/fd/3'',
         ReadRb ''/proc/7/cmdline'',
         Debug (PlayingProcess ''7'' ''/bin/bash'' (''/bin/bash'' @ [CHR 0x00] @ ''mpv'')),
         Debug (NotReadByPlayer ''/bin/bash''), Readlink ''/proc/7/fd/4'',
         Debug CouldntFindPlayingProcess :: (unit, unit) action], (None, None))"
    by (simp add: fd_dir_def prepend_def)
  have VH: "isdigit ''8''"
    "listdir vanishing_world (fd_dir ''8'') = Inl FileNotFoundError
     \<or> (listdir vanishing_world (fd_dir ''8'') = Inr [''0'', ''1'']
        \<and> fd_loop vanishing_world (literal_search ''mpv'') ''/media/show.mkv'' ''8'' [''0'', ''1'']
            = ([Readlink ''/proc/8/fd/0'', Readlink ''/proc/8/fd/1''] :: (unit, unit) action list,
               Inl FileNotFoundError))"
    by (simp_all add: example_simps vanishing_world_def)
  have VH2: "isdigit ''8''"
    "listdir vanishing_world (fd_dir ''8'') = Inl FileNotFoundError
     \<or> (listdir vanishing_world (fd_dir ''8'') = Inr [''0'', ''1'']
        \<and> fd_loop vanishing_world (literal_search ''mpv'') ''/media/none.mkv'' ''8'' [''0'', ''1'']
            = ([Readlink ''/proc/8/fd/0'', Readlink ''/proc/8/fd/1''] :: (unit, unit) action list,
               Inl FileNotFoundError))"
    by (simp_all add: example_simps vanishing_world_def)
  have VL: "listdir vanishing_world (fd_dir ''8'') = Inr [''0'', ''1'']"
    "listdir vanishing_world ''/proc/'' = Inr ([] @ ''8'' # [''42''])"
    by (simp_all add: example_simps vanishing_world_def)
  have VT: "proc_loop vanishing_world (literal_search ''mpv'') ''/media/show.mkv'' [''42'']
     = ([Listdir ''/proc/42/fd/'', Readlink ''/proc/42/fd/0'', Readlink ''/proc/42/fd/5'',
         ReadRb ''/proc/42/cmdline'',
         Debug (PlayingProcess ''42'' ''/usr/bin/mpv'' example_cmdline) :: (unit, unit) action],
        (Some ''42'', Some ''5''))"
    by (simp add: example_simps vanishing_world_def)
  have VN: "\<forall>q \<in> set ([] @ [''42'']). \<forall>fd \<in> set (scanned_descriptors vanishing_world q).
             \<not> hit vanishing_world (literal_search ''mpv'') ''/media/none.mkv'' q fd"
    by (simp add: example_simps vanishing_world_def)
  from failing_process_is_skipped [OF VH, of "[]" "[''42'']"] VL VT
  have 1: "proc_loop vanishing_world (literal_search ''mpv'') ''/media/show.mkv'' (''8'' # [''42''])
     = ([Listdir ''/proc/8/fd/'', Readlink ''/proc/8/fd/0'', Readlink ''/proc/8/fd/1'',
         Listdir ''/proc/42/fd/'', Readlink ''/proc/42/fd/0'', Readlink ''/proc/42/fd/5'',
         ReadRb ''/proc/42/cmdline'',
         Debug (PlayingProcess ''42'' ''/usr/bin/mpv'' example_cmdline) :: (unit, unit) action],
        (Some ''42'', Some ''5''))"
    by (simp add: fd_dir_def prepend_def)
  from failing_process_is_skipped [OF VH2, of "[]" "[''42'']"] VL VN
  have 2: "snd (is_being_played vanishing_world (literal_search ''mpv'') ''/media/none.mkv''
        :: (unit, unit) action list \<times> _) = Inr (None, None)"
    by blast
  from 0 1 2 show ?thesis by simp
qed

text \<open>
  Claim C6 as it is written says that the failure is logged. In the example the
  descriptors of process 1 cannot be listed, and the scan goes from that call straight to
  process 42: the only message is the one about process 42.
\<close>
theorem access_failure_is_logged_counterexample:
  "listdir example_world (fd_dir ''1'') = Inl PermissionError
   \<and> proc_loop example_world (literal_search ''mpv'') ''/media/show.mkv'' [''1'', ''42'']
     = ([Listdir ''/proc/1/fd/'', Listdir ''/proc/42/fd/'', Readlink ''/proc/42/fd/0'',
         Readlink ''/proc/42/fd/5'', ReadRb ''/proc/42/cmdline'',
         Debug (PlayingProcess ''42'' ''/usr/bin/mpv'' example_cmdline) :: (unit, unit) action],
        (Some ''42'', Some ''5''))"
  by (simp add: example_simps)

subsection \<open>The Handle Closure Checker\<close>

text \<open>
  Claim C7. \<^verbatim>\<open>_closed_handle\<close> is true exactly when \<^verbatim>\<open>/proc/pid/fd/fd\<close> is not a
  symbolic link that \<^verbatim>\<open>os.lstat\<close> finds; a failure of \<^verbatim>\<open>os.lstat\<close>, as for a process
  that has gone, is answered with true and raises nothing.
\<close>
theorem closed_handle_iff_no_link:
  "closed_handle w pid fd = (lstat_islnk w (handle_path pid fd) \<noteq> Inr True)
   \<and> (\<forall>e. lstat_islnk w (handle_path pid fd) = Inl e \<longrightarrow> closed_handle w pid fd)"
  by (auto simp add: closed_handle_def islink_def handle_path_def split: sum.splits)

theorem closed_handle_iff_no_link_witness:
  "\<not> closed_handle example_world (Some ''42'') (Some ''5'')
   \<and> closed_handle example_world (Some ''4242'') (Some ''5'')
   \<and> closed_handle example_world None None"
proof -
  have "lstat_islnk example_world (handle_path (Some ''42'') (Some ''5'')) = Inr True"
    and "lstat_islnk example_world (handle_path (Some ''4242'') (Some ''5'')) = Inl FileNotFoundError"
    and "lstat_islnk example_world (handle_path None None) = Inl FileNotFoundError"
    by (simp_all add: example_world_def handle_path_def fmt_s_def)
  with closed_handle_iff_no_link [of example_world "Some ''42''" "Some ''5''"]
    closed_handle_iff_no_link [of example_world "Some ''4242''" "Some ''5''"]
    closed_handle_iff_no_link [of example_world None None]
  show ?thesis by simp
qed

subsection \<open>The Tracking State Machine\<close>

text \<open>
  Claim C5. An open event that arrives while no file is tracked and for which
  \<^verbatim>\<open>_is_being_played\<close> returns \<open>(None, None)\<close> changes nothing but the trace: the tuple
  \<open>open_file\<close> stays \<open>(None, None, None)\<close>, the base class is not called, and what is
  added to the trace are the two debug messages of \<^verbatim>\<open>_proc_open\<close> around the scan's reads
  of \<^verbatim>\<open>/proc\<close> and debug messages; no signal is emitted.
\<close>
theorem open_without_player_stays_idle:
  fixes st :: "('st, 'sh, 'x) tracker"
  assumes "open_file st = (None, None, None)"
    and "is_being_played w (re_players c) (path_join pth nm) = (tr, Inr (None, None))"
  shows "proc_open c w pth nm st
           = (Inr (),
              st\<lparr>trace := trace st @ Debug (GotOpenEvent pth nm) # tr
                              @ [Debug NotPlayedByPlayer]\<rparr>)
         \<and> list_all (\<lambda>a. is_access a \<or> is_debug a) tr"
proof -
  have "list_all (\<lambda>a. is_access a \<or> is_debug a) tr"
    using is_being_played_actions [of w "re_players c" "path_join pth nm",
        where ?'st = 'st and ?'sh = 'sh] assms(2)
    by simp
  with assms show ?thesis
    by (simp add: proc_open_def log_def truthy_def)
qed

theorem open_without_player_stays_idle_witness:
  "fst (proc_open example_collab example_world ''/media'' ''other.mkv'' example_tracker) = Inr ()
   \<and> open_file (snd (proc_open example_collab example_world ''/media'' ''other.mkv''
        example_tracker)) = (None, None, None)
   \<and> base (snd (proc_open example_collab example_world ''/media'' ''other.mkv''
        example_tracker)) = base example_tracker"
proof -
  have I: "open_file example_tracker = (None, None, None)"
    by (simp add: example_tracker_def)
  have S: "is_being_played example_world (re_players example_collab)
             (path_join ''/media'' ''other.mkv'')
           = (fst (is_being_played example_world (re_players example_collab)
                (path_join ''/media'' ''other.mkv'')) :: (int, string) action list,
              Inr (None, None))"
    by (simp add: example_simps example_collab_def path_join_def)
  from open_without_player_stays_idle [OF I S] I show ?thesis by simp
qed

text \<open>
  Claim C2. The tracker has one slot \<open>open_file\<close> for the tracked file. While its path is
  set, any number of open events in a row return normally and add only their two debug
  messages to the trace (nothing for a directory): no read of \<^verbatim>\<open>/proc\<close>, no signal, no
  call of the base class, the slot and the base class unchanged; and an event of any kind
  leaves the slot as it is or clears it, so a tracked file is never replaced by another.
\<close>
theorem single_tracked_file:
  assumes "truthy (fst (open_file st))"
  shows "((\<forall>we \<in> set wes. ev_kind (snd we) = IN_OPEN) \<longrightarrow>
            process_events c wes st = (Inr (), log (concat (map already_tracked_log wes)) st))
         \<and> (open_file (snd (EventHandler c we st)) = open_file st
            \<or> open_file (snd (EventHandler c we st)) = (None, None, None))"
  using assms opens_while_tracking [of st wes c] EventHandler_open_file [of st c we]
  by blast

theorem single_tracked_file_witness:
  "process_events example_collab
     [(example_world, open_event), (example_world, other_open_event)] tracking_tracker
     = (Inr (),
        tracking_tracker
          \<lparr>trace := [Debug (GotOpenEvent ''/media'' ''show.mkv''), Debug AlreadyTracked,
                     Debug (GotOpenEvent ''/media'' ''other.mkv''), Debug AlreadyTracked]\<rparr>)
   \<and> open_file (snd (EventHandler example_collab (closed_world, close_event) tracking_tracker))
     = (None, None, None)"
proof -
  have T: "truthy (fst (open_file tracking_tracker))"
    by (simp add: tracker_example_simps truthy_def)
  have K: "\<forall>we \<in> set [(example_world, open_event), (example_world, other_open_event)].
             ev_kind (snd we) = IN_OPEN"
    by (simp add: tracker_example_simps)
  have C: "open_file (snd (EventHandler example_collab (closed_world, close_event)
             tracking_tracker)) \<noteq> open_file tracking_tracker"
    by (simp add: tracker_example_simps EventHandler_def process_IN_CLOSE_NOWRITE_def
          proc_close_def Let_def path_join_def closed_handle_def islink_def fmt_s_def
          example_world_def call_emit_signal_def call_get_playing_show_def
          call_update_show_if_needed_def)
  from single_tracked_file [OF T, of "[(example_world, open_event), (example_world, other_open_event)]"
      example_collab "(closed_world, close_event)"] K C
  show ?thesis
    by (simp add: already_tracked_log_def tracker_example_simps log_def)
qed

text \<open>
  Claim C3. A close event while no file is tracked, or for another path than the tracked
  one, changes only the trace (debug messages and the sleep). For the tracked path, when
  \<^verbatim>\<open>_closed_handle\<close> is false the same holds and the file stays tracked; when it is true
  and the calls of the base class return, the signal \<open>Detected\<close> is emitted with the event's
  path and name, \<open>open_file\<close> is cleared, \<^verbatim>\<open>_get_playing_show(None)\<close> is called and its
  result is given to \<^verbatim>\<open>update_show_if_needed\<close>, whose outcome is the outcome of the call;
  the same close event again then changes only the trace.
\<close>
theorem close_candidate:
  fixes st :: "('st, 'sh, 'x) tracker"
  shows "(open_file st = (None, None, None) \<or> Some (path_join pth nm) \<noteq> fst (open_file st) \<longrightarrow>
            proc_close c w pth nm st
              = (Inr (), st\<lparr>trace := trace st @ [Debug (GotCloseEvent pth nm), Sleep,
                                                Debug DifferentFileClosed]\<rparr>))
       \<and> (open_file st = (Some (path_join pth nm), pid, fd) \<and> \<not> closed_handle w pid fd \<longrightarrow>
            proc_close c w pth nm st
              = (Inr (), st\<lparr>trace := trace st @ [Debug (GotCloseEvent pth nm), Sleep,
                                                Lstat (handle_path pid fd),
                                                Debug PidHasntClosed]\<rparr>))
       \<and> (open_file st = (Some (path_join pth nm), pid, fd) \<and> closed_handle w pid fd \<and>
          emit_signal c Detected pth nm (base st) = (Inr (), b1) \<and>
          get_playing_show c None b1 = (Inr (s, show_tuple), b2) \<and>
          update_show_if_needed c s show_tuple b2 = (r, b3) \<longrightarrow>
            proc_close c w pth nm st
              = (r, \<lparr>open_file = (None, None, None), base = b3,
                     trace = trace st @ [Debug (GotCloseEvent pth nm), Sleep,
                                         Lstat (handle_path pid fd),
                                         EmitSignal Detected pth nm, GetPlayingShow None,
                                         UpdateShowIfNeeded s show_tuple]\<rparr>)
            \<and> (\<forall>w1 st1. st1 = snd (proc_close c w pth nm st) \<longrightarrow>
                  proc_close c w1 pth nm st1
                    = (Inr (), st1\<lparr>trace := trace st1 @ [Debug (GotCloseEvent pth nm), Sleep,
                                                       Debug DifferentFileClosed]\<rparr>)))"
  (is "?A \<and> ?B \<and> ?C")
proof -
  have A: ?A
    by (auto simp add: proc_close_different log_def)
  have B: ?B
    by (auto simp add: proc_close_still_open log_def)
  have C: ?C
  proof
    assume H: "open_file st = (Some (path_join pth nm), pid, fd) \<and> closed_handle w pid fd \<and>
          emit_signal c Detected pth nm (base st) = (Inr (), b1) \<and>
          get_playing_show c None b1 = (Inr (s, show_tuple), b2) \<and>
          update_show_if_needed c s show_tuple b2 = (r, b3)"
    then have R: "proc_close c w pth nm st
              = (r, \<lparr>open_file = (None, None, None), base = b3,
                     trace = trace st @ [Debug (GotCloseEvent pth nm), Sleep,
                                         Lstat (handle_path pid fd),
                                         EmitSignal Detected pth nm, GetPlayingShow None,
                                         UpdateShowIfNeeded s show_tuple]\<rparr>)"
      by (simp add: proc_close_closed call_emit_signal_def call_get_playing_show_def
            call_update_show_if_needed_def log_def)
    then have "Some (path_join pth nm) \<noteq> fst (open_file (snd (proc_close c w pth nm st)))"
      by simp
    then have "\<forall>w1 st1. st1 = snd (proc_close c w pth nm st) \<longrightarrow>
                  proc_close c w1 pth nm st1
                    = (Inr (), st1\<lparr>trace := trace st1 @ [Debug (GotCloseEvent pth nm), Sleep,
                                                       Debug DifferentFileClosed]\<rparr>)"
      by (simp add: proc_close_different log_def)
    with R show "proc_close c w pth nm st
              = (r, \<lparr>open_file = (None, None, None), base = b3,
                     trace = trace st @ [Debug (GotCloseEvent pth nm), Sleep,
                                         Lstat (handle_path pid fd),
                                         EmitSignal Detected pth nm, GetPlayingShow None,
                                         UpdateShowIfNeeded s show_tuple]\<rparr>)
            \<and> (\<forall>w1 st1. st1 = snd (proc_close c w pth nm st) \<longrightarrow>
                  proc_close c w1 pth nm st1
                    = (Inr (), st1\<lparr>trace := trace st1 @ [Debug (GotCloseEvent pth nm), Sleep,
                                                       Debug DifferentFileClosed]\<rparr>))"
      by blast
  qed
  from A B C show ?thesis by blast
qed

theorem close_candidate_witness:
  "proc_close example_collab example_world ''/media'' ''show.mkv'' example_tracker
     = (Inr (),
        example_tracker\<lparr>trace := [Debug (GotCloseEvent ''/media'' ''show.mkv''), Sleep,
                                  Debug DifferentFileClosed]\<rparr>)
   \<and> proc_close example_collab example_world ''/media'' ''show.mkv'' tracking_tracker
     = (Inr (),
        tracking_tracker\<lparr>trace := [Debug (GotCloseEvent ''/media'' ''show.mkv''), Sleep,
                                   Lstat ''/proc/42/fd/5'', Debug PidHasntClosed]\<rparr>)
   \<and> proc_close example_collab closed_world ''/media'' ''show.mkv'' tracking_tracker
     = (Inr (),
        \<lparr>open_file = (None, None, None),
         base = \<lparr>active = True, last_state = 0, last_show_tuple = [], last_updated = False,
                  other = ()\<rparr>,
         trace = [Debug (GotCloseEvent ''/media'' ''show.mkv''), Sleep,
                  Lstat ''/proc/42/fd/5'', EmitSignal Detected ''/media'' ''show.mkv'',
                  GetPlayingShow None, UpdateShowIfNeeded 0 []]\<rparr>)
   \<and> proc_close example_collab closed_world ''/media'' ''show.mkv''
       (snd (proc_close example_collab closed_world ''/media'' ''show.mkv'' tracking_tracker))
     = (Inr (),
        \<lparr>open_file = (None, None, None),
         base = \<lparr>active = True, last_state = 0, last_show_tuple = [], last_updated = False,
                  other = ()\<rparr>,
         trace = [Debug (GotCloseEvent ''/media'' ''show.mkv''), Sleep,
                  Lstat ''/proc/42/fd/5'', EmitSignal Detected ''/media'' ''show.mkv'',
                  GetPlayingShow None, UpdateShowIfNeeded 0 [],
                  Debug (GotCloseEvent ''/media'' ''show.mkv''), Sleep,
                  Debug DifferentFileClosed]\<rparr>)"
proof -
  have I: "open_file example_tracker = (None, None, None)"
    by (simp add: tracker_example_simps)
  have O: "open_file tracking_tracker
             = (Some (path_join ''/media'' ''show.mkv''), Some ''42'', Some ''5'')"
    by (simp add: tracker_example_simps path_join_def)
  have N: "\<not> closed_handle example_world (Some ''42'') (Some ''5'')"
    by (simp add: closed_handle_def islink_def fmt_s_def example_world_def)
  have Y: "closed_handle closed_world (Some ''42'') (Some ''5'')"
    by (simp add: closed_handle_def islink_def fmt_s_def closed_world_def)
  have E: "emit_signal example_collab Detected ''/media'' ''show.mkv'' (base tracking_tracker)
             = (Inr (), base tracking_tracker)"
    by (simp add: tracker_example_simps)
  have G: "get_playing_show example_collab None (base tracking_tracker)
             = (Inr (0, []), base tracking_tracker)"
    by (simp add: tracker_example_simps)
  have U: "update_show_if_needed example_collab 0 [] (base tracking_tracker)
             = (Inr (), \<lparr>active = True, last_state = 0, last_show_tuple = [],
                  last_updated = False, other = ()\<rparr>)"
    by (simp add: tracker_example_simps)
  have 1: "proc_close example_collab example_world ''/media'' ''show.mkv'' example_tracker
     = (Inr (),
        example_tracker\<lparr>trace := trace example_tracker
           @ [Debug (GotCloseEvent ''/media'' ''show.mkv''), Sleep, Debug DifferentFileClosed]\<rparr>)"
    using close_candidate [of example_tracker "''/media''" "''show.mkv''" example_collab
          example_world] I
    by blast
  have 2: "proc_close example_collab example_world ''/media'' ''show.mkv'' tracking_tracker
     = (Inr (),
        tracking_tracker\<lparr>trace := trace tracking_tracker
           @ [Debug (GotCloseEvent ''/media'' ''show.mkv''), Sleep,
              Lstat (handle_path (Some ''42'') (Some ''5'')), Debug PidHasntClosed]\<rparr>)"
    using close_candidate [of tracking_tracker "''/media''" "''show.mkv''" example_collab
          example_world "Some ''42''" "Some ''5''"] O N
    by blast
  have 3: "proc_close example_collab closed_world ''/media'' ''show.mkv'' tracking_tracker
     = (Inr (),
        \<lparr>open_file = (None, None, None),
         base = \<lparr>active = True, last_state = 0, last_show_tuple = [], last_updated = False,
                  other = ()\<rparr>,
         trace = trace tracking_tracker
           @ [Debug (GotCloseEvent ''/media'' ''show.mkv''), Sleep,
              Lstat (handle_path (Some ''42'') (Some ''5'')),
              EmitSignal Detected ''/media'' ''show.mkv'',
              GetPlayingShow None, UpdateShowIfNeeded 0 []]\<rparr>)
     \<and> (\<forall>w1 st1. st1 = snd (proc_close example_collab closed_world ''/media'' ''show.mkv''
             tracking_tracker) \<longrightarrow>
           proc_close example_collab w1 ''/media'' ''show.mkv'' st1
             = (Inr (), st1\<lparr>trace := trace st1
                  @ [Debug (GotCloseEvent ''/media'' ''show.mkv''), Sleep,
                     Debug DifferentFileClosed]\<rparr>))"
    using close_candidate [of tracking_tracker "''/media''" "''show.mkv''" example_collab
          closed_world "Some ''42''" "Some ''5''" "base tracking_tracker" 0 "[]"
          "base tracking_tracker" "Inr ()"
          "\<lparr>active = True, last_state = 0, last_show_tuple = [],
                  last_updated = False, other = ()\<rparr>"] O Y E G U
    by blast
  from 3 have 4: "proc_close example_collab closed_world ''/media'' ''show.mkv''
       (snd (proc_close example_collab closed_world ''/media'' ''show.mkv'' tracking_tracker))
     = (Inr (), (snd (proc_close example_collab closed_world ''/media'' ''show.mkv''
                  tracking_tracker))
          \<lparr>trace := trace (snd (proc_close example_collab closed_world ''/media'' ''show.mkv''
                  tracking_tracker))
                  @ [Debug (GotCloseEvent ''/media'' ''show.mkv''), Sleep,
                     Debug DifferentFileClosed]\<rparr>)"
    by blast
  from 1 2 3 4 show ?thesis
    by (simp add: tracker_example_simps handle_path_def fmt_s_def)
qed

subsection \<open>The Event Classifier\<close>

text \<open>
  Claim C8. The handler is a function of the event and the tracker, with no state of its
  own: an event with the directory flag changes nothing; otherwise an open event is
  \<^verbatim>\<open>_proc_open\<close>, both close events are \<^verbatim>\<open>_proc_close\<close>, create and moved-to emit
  \<open>Detected\<close> and moved-from and delete emit \<open>Removed\<close> with the event's path and name,
  and these four leave \<open>open_file\<close> as it is.
\<close>
theorem event_classifier:
  fixes st :: "('st, 'sh, 'x) tracker"
  shows "(ev_isdir ev \<longrightarrow> EventHandler c (w, ev) st = (Inr (), st))
       \<and> (\<not> ev_isdir ev \<and> ev_kind ev = IN_OPEN \<longrightarrow>
            EventHandler c (w, ev) st = proc_open c w (ev_path ev) (ev_name ev) st)
       \<and> (\<not> ev_isdir ev \<and> (ev_kind ev = IN_CLOSE_NOWRITE \<or> ev_kind ev = IN_CLOSE_WRITE) \<longrightarrow>
            EventHandler c (w, ev) st = proc_close c w (ev_path ev) (ev_name ev) st)
       \<and> (\<not> ev_isdir ev \<and> (ev_kind ev = IN_CREATE \<or> ev_kind ev = IN_MOVED_TO) \<longrightarrow>
            EventHandler c (w, ev) st
              = (fst (emit_signal c Detected (ev_path ev) (ev_name ev) (base st)),
                 st\<lparr>base := snd (emit_signal c Detected (ev_path ev) (ev_name ev) (base st)),
                    trace := trace st @ [EmitSignal Detected (ev_path ev) (ev_name ev)]\<rparr>))
       \<and> (\<not> ev_isdir ev \<and> (ev_kind ev = IN_MOVED_FROM \<or> ev_kind ev = IN_DELETE) \<longrightarrow>
            EventHandler c (w, ev) st
              = (fst (emit_signal c Removed (ev_path ev) (ev_name ev) (base st)),
                 st\<lparr>base := snd (emit_signal c Removed (ev_path ev) (ev_name ev) (base st)),
                    trace := trace st @ [EmitSignal Removed (ev_path ev) (ev_name ev)]\<rparr>))"
  by (cases "ev_kind ev")
     (auto simp add: EventHandler_def process_IN_OPEN_def process_IN_CLOSE_NOWRITE_def
        process_IN_CLOSE_WRITE_def process_IN_CREATE_def process_IN_MOVED_TO_def
        process_IN_MOVED_FROM_def process_IN_DELETE_def call_emit_signal_def log_def
        split: prod.splits)

theorem event_classifier_witness:
  "EventHandler example_collab (example_world, directory_event) tracking_tracker
     = (Inr (), tracking_tracker)
   \<and> EventHandler example_collab (example_world, create_event) tracking_tracker
     = (Inr (), tracking_tracker\<lparr>trace := [EmitSignal Detected ''/media'' ''new.mkv'']\<rparr>)
   \<and> EventHandler example_collab (example_world, delete_event) tracking_tracker
     = (Inr (), tracking_tracker\<lparr>trace := [EmitSignal Removed ''/media'' ''old.mkv'']\<rparr>)
   \<and> EventHandler example_collab (example_world, open_event) tracking_tracker
     = proc_open example_collab example_world ''/media'' ''show.mkv'' tracking_tracker
   \<and> EventHandler example_collab (example_world, close_event) tracking_tracker
     = proc_close example_collab example_world ''/media'' ''show.mkv'' tracking_tracker"
  using event_classifier [of directory_event example_collab example_world tracking_tracker]
    event_classifier [of create_event example_collab example_world tracking_tracker]
    event_classifier [of delete_event example_collab example_world tracking_tracker]
    event_classifier [of open_event example_collab example_world tracking_tracker]
    event_classifier [of close_event example_collab example_world tracking_tracker]
  by (simp add: tracker_example_simps)

subsection \<open>The Watch Loop\<close>

text \<open>
  Claim C9. However \<^verbatim>\<open>observe\<close> ends, by \<^verbatim>\<open>self.active\<close> being false at the head of the
  loop or by an exception of \<^verbatim>\<open>check_events\<close>, \<^verbatim>\<open>read_events\<close>, the handling of an
  event or \<^verbatim>\<open>update_show_if_needed\<close>, the last two things it has done are
  \<^verbatim>\<open>notifier.stop()\<close> and the message that the tracker has stopped, and it has not called
  \<^verbatim>\<open>notifier.stop()\<close> before; while the loop is still waiting it has not called it at all.
\<close>
theorem notifier_stopped_on_every_exit:
  fixes st :: "('st, 'sh, 'x) tracker"
  shows "(case observe c ts watch_dir interval st of
            Waiting timeout st1 \<Rightarrow> extends st st1
          | Returned st1 \<Rightarrow> stopped_at_exit st st1
          | Raised e st1 \<Rightarrow> stopped_at_exit st st1)"
proof -
  let ?st0 = "log [Info UsingPyinotify, Debug (WatchingDirectory watch_dir), AddWatch watch_dir] st"
  have E: "extends st (outcome_state (while_active c ts None ?st0))"
    using extends_log [of "[Info UsingPyinotify, Debug (WatchingDirectory watch_dir), AddWatch watch_dir]" st]
      extends_while_active [of ?st0 c ts None]
    by (auto intro: extends_trans)
  show ?thesis
  proof (cases "while_active c ts None ?st0")
    case (Waiting timeout st1)
    with E show ?thesis
      by (simp add: observe_def)
  next
    case (Returned st1)
    with E show ?thesis
      by (simp add: observe_def stopped_at_exit_finally)
  next
    case (Raised e st1)
    with E show ?thesis
      by (simp add: observe_def stopped_at_exit_finally)
  qed
qed

theorem notifier_stopped_on_every_exit_witness:
  "observe example_collab [\<lparr>polled = NoEvents, stopped = True\<rparr>] ''/media'' 1 example_tracker
     = Returned
         \<lparr>open_file = (None, None, None),
          base = \<lparr>active = False, last_state = 0, last_show_tuple = [], last_updated = True,
                   other = ()\<rparr>,
          trace = [Info UsingPyinotify, Debug (WatchingDirectory ''/media''),
                   AddWatch ''/media'', CheckEvents None, Debug (SendingLastState 0 []),
                   UpdateShowIfNeeded 0 [], NotifierStop, Info TrackerHasStopped]\<rparr>
   \<and> stopped_at_exit example_tracker
       (outcome_state (observe example_collab [\<lparr>polled = NoEvents, stopped = True\<rparr>]
          ''/media'' 1 example_tracker))
   \<and> observe example_collab
       [\<lparr>polled = Events (Inr [(broken_world, open_event)]), stopped = False\<rparr>]
       ''/media'' 1 example_tracker
     = Raised (OSError PermissionError)
         \<lparr>open_file = (None, None, None),
          base = \<lparr>active = True, last_state = 0, last_show_tuple = [], last_updated = False,
                   other = ()\<rparr>,
          trace = [Info UsingPyinotify, Debug (WatchingDirectory ''/media''),
                   AddWatch ''/media'', CheckEvents None, ReadEvents, ProcessEvents,
                   Debug (GotOpenEvent ''/media'' ''show.mkv''), Listdir ''/proc/'',
                   NotifierStop, Info TrackerHasStopped]\<rparr>
   \<and> stopped_at_exit example_tracker
       (outcome_state (observe example_collab
          [\<lparr>polled = Events (Inr [(broken_world, open_event)]), stopped = False\<rparr>]
          ''/media'' 1 example_tracker))
   \<and> extends example_tracker
       (outcome_state (observe example_collab example_turns ''/media'' 1 example_tracker))"
proof -
  have R: "observe example_collab [\<lparr>polled = NoEvents, stopped = True\<rparr>] ''/media'' 1
             example_tracker
     = Returned
         \<lparr>open_file = (None, None, None),
          base = \<lparr>active = False, last_state = 0, last_show_tuple = [], last_updated = True,
                   other = ()\<rparr>,
          trace = [Info UsingPyinotify, Debug (WatchingDirectory ''/media''),
                   AddWatch ''/media'', CheckEvents None, Debug (SendingLastState 0 []),
                   UpdateShowIfNeeded 0 [], NotifierStop, Info TrackerHasStopped]\<rparr>"
    by (simp add: run_simps log_def)
  have X: "observe example_collab
       [\<lparr>polled = Events (Inr [(broken_world, open_event)]), stopped = False\<rparr>]
       ''/media'' 1 example_tracker
     = Raised (OSError PermissionError)
         \<lparr>open_file = (None, None, None),
          base = \<lparr>active = True, last_state = 0, last_show_tuple = [], last_updated = False,
                   other = ()\<rparr>,
          trace = [Info UsingPyinotify, Debug (WatchingDirectory ''/media''),
                   AddWatch ''/media'', CheckEvents None, ReadEvents, ProcessEvents,
                   Debug (GotOpenEvent ''/media'' ''show.mkv''), Listdir ''/proc/'',
                   NotifierStop, Info TrackerHasStopped]\<rparr>"
    by (simp add: run_simps broken_world_def log_def)
  have W: "observe example_collab example_turns ''/media'' 1 example_tracker
     = Waiting (Some 1000)
         (outcome_state (observe example_collab example_turns ''/media'' 1 example_tracker))"
    by (simp add: run_simps example_turns_def log_def)
  have 1: "stopped_at_exit example_tracker
       (outcome_state (observe example_collab [\<lparr>polled = NoEvents, stopped = True\<rparr>]
          ''/media'' 1 example_tracker))"
    using notifier_stopped_on_every_exit [of example_tracker example_collab
        "[\<lparr>polled = NoEvents, stopped = True\<rparr>]" "''/media''" 1] R
    by simp
  have 2: "stopped_at_exit example_tracker
       (outcome_state (observe example_collab
          [\<lparr>polled = Events (Inr [(broken_world, open_event)]), stopped = False\<rparr>]
          ''/media'' 1 example_tracker))"
    using notifier_stopped_on_every_exit [of example_tracker example_collab
        "[\<lparr>polled = Events (Inr [(broken_world, open_event)]), stopped = False\<rparr>]"
        "''/media''" 1] X
    by simp
  have 3: "extends example_tracker
       (outcome_state (observe example_collab example_turns ''/media'' 1 example_tracker))"
    using notifier_stopped_on_every_exit [of example_tracker example_collab example_turns
        "''/media''" 1] W
    by (cases "observe example_collab example_turns ''/media'' 1 example_tracker") simp_all
  from R X 1 2 3 show ?thesis by simp
qed

text \<open>
  One turn of the loop, from any state. When the wait times out,
  \<^verbatim>\<open>update_show_if_needed\<close> is called with \<^verbatim>\<open>last_state\<close> and \<^verbatim>\<open>last_show_tuple\<close>,
  whatever follows. When the loop waits again after the turn: the wait of the turn used the
  \<^verbatim>\<open>timeout\<close> the turn began with; after a timed-out wait the \<^verbatim>\<open>timeout\<close> is the same
  again, since the source assigns it only in the branch that handled events; after a wait
  that delivered events it is \<^verbatim>\<open>None\<close> if \<^verbatim>\<open>last_state\<close> is \<^verbatim>\<open>TRACKER_NOVIDEO\<close> or
  \<^verbatim>\<open>last_updated\<close> is set, and 1000 otherwise. The first wait of \<^verbatim>\<open>observe\<close> uses
  \<^verbatim>\<open>None\<close>.
\<close>
theorem timeout_after_turn:
  fixes st :: "('st, 'sh, 'x) tracker"
  shows "(active (base st) \<and> polled t = NoEvents \<longrightarrow>
            added st (outcome_state (while_active c [t] timeout st))
              = [CheckEvents timeout,
                 Debug (SendingLastState (last_state (base st)) (last_show_tuple (base st))),
                 UpdateShowIfNeeded (last_state (base st)) (last_show_tuple (base st))])
       \<and> (while_active c [t] timeout st = Waiting timeout1 st1 \<longrightarrow>
            trace st1 ! length (trace st) = CheckEvents timeout
            \<and> (polled t = NoEvents \<longrightarrow>
                 timeout1 = timeout
                 \<and> base st1 = snd (update_show_if_needed c (last_state (base st))
                                     (last_show_tuple (base st)) (base st)))
            \<and> (polled t \<noteq> NoEvents \<longrightarrow>
                 timeout1 = (if last_state (base st1) = TRACKER_NOVIDEO c
                                \<or> last_updated (base st1)
                             then None else Some 1000)))
       \<and> (\<forall>st0 st2 timeout2. observe c [] watch_dir interval (st0 :: ('st, 'sh, 'x) tracker)
              = Waiting timeout2 st2 \<longrightarrow> timeout2 = None)"
  (is "?R \<and> (?W \<longrightarrow> ?A \<and> ?B \<and> ?C) \<and> ?D")
proof -
  have R: ?R
    using timeout_resubmits [of st t c timeout] by blast
  have W: "?A \<and> ?B \<and> ?C" if assms: ?W
  proof -
    from assms have Act: "active (base st)"
      by (simp split: if_splits)
    obtain r st2 where B: "loop_body c (polled t) timeout st = (r, st2)"
      by (cases "loop_body c (polled t) timeout st")
    from assms Act B obtain timeout3 where R: "r = Inr timeout3"
      by (cases r) simp_all
    from assms Act B R have W: "while_active c [] timeout3
        (if stopped t then set_inactive st2 else st2) = Waiting timeout1 st1"
      by simp
    then have S: "\<not> stopped t"
      by (auto simp add: set_inactive_def split: if_splits)
    with W have Eq: "timeout3 = timeout1" "st2 = st1"
      by (simp_all split: if_splits)
    with B R have L: "loop_body c (polled t) timeout st = (Inr timeout1, st1)" by simp
    have "extends (log [CheckEvents timeout] st) st1"
      using extends_loop_body [of timeout st c "polled t"] L by simp
    then have A: ?A
      by (auto simp add: extends_iff)
    have B': ?B
      using L
      by (auto simp add: loop_body_def Let_def call_update_show_if_needed_def log_def
            split: prod.splits sum.splits)
    have C: ?C
      using L
      by (cases "polled t")
         (auto simp add: loop_body_def Let_def split: prod.splits sum.splits)
    from A B' C show ?thesis by blast
  qed
  have D: ?D
    by (auto simp add: observe_def split: outcome.splits if_splits)
  from R W D show ?thesis by blast
qed

theorem timeout_after_turn_witness:
  "while_active example_collab [\<lparr>polled = NoEvents, stopped = False\<rparr>] (Some 1000)
     tracking_tracker
     = Waiting (Some 1000)
         \<lparr>open_file = (Some ''/media/show.mkv'', Some ''42'', Some ''5''),
          base = \<lparr>active = True, last_state = 1, last_show_tuple = ''show.mkv'',
                   last_updated = True, other = ()\<rparr>,
          trace = [CheckEvents (Some 1000), Debug (SendingLastState 1 ''show.mkv''),
                   UpdateShowIfNeeded 1 ''show.mkv'']\<rparr>
   \<and> added tracking_tracker
       (outcome_state (while_active example_collab [\<lparr>polled = NoEvents, stopped = False\<rparr>]
          (Some 1000) tracking_tracker))
     = [CheckEvents (Some 1000), Debug (SendingLastState 1 ''show.mkv''),
        UpdateShowIfNeeded 1 ''show.mkv'']
   \<and> while_active example_collab
       [\<lparr>polled = Events (Inr [(example_world, directory_event)]), stopped = False\<rparr>] None
       tracking_tracker
     = Waiting (Some 1000)
         (tracking_tracker\<lparr>trace := [CheckEvents None, ReadEvents, ProcessEvents]\<rparr>)
   \<and> observe example_collab [] ''/media'' 1 example_tracker
     = Waiting None
         (example_tracker\<lparr>trace := [Info UsingPyinotify, Debug (WatchingDirectory ''/media''),
                                    AddWatch ''/media'']\<rparr>)"
proof -
  let ?st1 = "\<lparr>open_file = (Some ''/media/show.mkv'', Some ''42'', Some ''5''),
          base = \<lparr>active = True, last_state = 1::int, last_show_tuple = ''show.mkv'',
                   last_updated = True, other = ()\<rparr>,
          trace = [CheckEvents (Some 1000), Debug (SendingLastState 1 ''show.mkv''),
                   UpdateShowIfNeeded 1 ''show.mkv'']\<rparr>"
  have W: "while_active example_collab [\<lparr>polled = NoEvents, stopped = False\<rparr>] (Some 1000)
             tracking_tracker = Waiting (Some 1000) ?st1"
    by (simp add: run_simps log_def)
  have A: "active (base tracking_tracker)"
    by (simp add: tracker_example_simps)
  from timeout_after_turn [of tracking_tracker "\<lparr>polled = NoEvents, stopped = False\<rparr>"
      example_collab "Some 1000" "Some 1000" ?st1] W A
  have 1: "added tracking_tracker
       (outcome_state (while_active example_collab [\<lparr>polled = NoEvents, stopped = False\<rparr>]
          (Some 1000) tracking_tracker))
     = [CheckEvents (Some 1000), Debug (SendingLastState 1 ''show.mkv''),
        UpdateShowIfNeeded 1 ''show.mkv'']"
    by (simp add: tracker_example_simps)
  let ?t = "\<lparr>polled = Events (Inr [(example_world, directory_event)]), stopped = False\<rparr>"
  let ?st2 = "tracking_tracker\<lparr>trace := [CheckEvents None, ReadEvents, ProcessEvents]\<rparr>"
  have "\<exists>timeout. while_active example_collab [?t] None tracking_tracker = Waiting timeout ?st2"
    by (simp add: run_simps process_IN_CREATE_def log_def)
  then obtain timeout where E: "while_active example_collab [?t] None tracking_tracker
      = Waiting timeout ?st2"
    by blast
  from timeout_after_turn [of tracking_tracker ?t example_collab None timeout ?st2] E
  have "timeout = Some 1000"
    by (simp add: tracker_example_simps)
  with E have 2: "while_active example_collab [?t] None tracking_tracker
      = Waiting (Some 1000) ?st2"
    by simp
  let ?st3 = "example_tracker\<lparr>trace := [Info UsingPyinotify,
      Debug (WatchingDirectory ''/media''), AddWatch ''/media'']\<rparr>"
  have "\<exists>timeout. observe example_collab [] ''/media'' 1 example_tracker = Waiting timeout ?st3"
    by (simp add: run_simps log_def)
  then obtain timeout0 where F: "observe example_collab [] ''/media'' 1 example_tracker
      = Waiting timeout0 ?st3"
    by blast
  from timeout_after_turn [of tracking_tracker ?t example_collab None timeout ?st2 "''/media''" 1] F
  have "timeout0 = None"
    by blast
  with F have 3: "observe example_collab [] ''/media'' 1 example_tracker = Waiting None ?st3"
    by simp
  from W 1 2 3 show ?thesis by simp
qed

text \<open>
  The no-video half of the rule holds in every run: with an \<^verbatim>\<open>update_show_if_needed\<close>
  that does not turn a state it is given again into \<^verbatim>\<open>TRACKER_NOVIDEO\<close>, every wait of
  \<^verbatim>\<open>observe\<close> that begins with \<^verbatim>\<open>last_state\<close> equal to \<^verbatim>\<open>TRACKER_NOVIDEO\<close> uses
  \<^verbatim>\<open>None\<close>; so does the wait after a timeout that fired in that state.
\<close>

lemma loop_body_novideo:
  fixes st :: "('st, 'sh, 'x) tracker"
  assumes keep: "\<forall>b. last_state b \<noteq> TRACKER_NOVIDEO c \<longrightarrow>
            last_state (snd (update_show_if_needed c (last_state b) (last_show_tuple b) b))
              \<noteq> TRACKER_NOVIDEO c"
    and inv: "last_state (base st) = TRACKER_NOVIDEO c \<longrightarrow> timeout = None"
    and body: "loop_body c pl timeout st = (Inr timeout1, st1)"
  shows "last_state (base st1) = TRACKER_NOVIDEO c \<longrightarrow> timeout1 = None"
proof (cases pl)
  case (CheckRaises e)
  with body show ?thesis by (simp add: loop_body_def Let_def)
next
  case (Events r)
  with body show ?thesis
    by (auto simp add: loop_body_def Let_def split: sum.splits prod.splits)
next
  case NoEvents
  let ?u = "update_show_if_needed c (last_state (base st)) (last_show_tuple (base st)) (base st)"
  from NoEvents body have T: "timeout1 = timeout" and B: "base st1 = snd ?u"
    by (auto simp add: loop_body_def Let_def call_update_show_if_needed_def
          split: sum.splits prod.splits)
  show ?thesis
  proof
    assume "last_state (base st1) = TRACKER_NOVIDEO c"
    with B keep have "last_state (base st) = TRACKER_NOVIDEO c" by metis
    with inv T show "timeout1 = None" by simp
  qed
qed

lemma while_active_novideo:
  fixes st :: "('st, 'sh, 'x) tracker"
  assumes keep: "\<forall>b. last_state b \<noteq> TRACKER_NOVIDEO c \<longrightarrow>
            last_state (snd (update_show_if_needed c (last_state b) (last_show_tuple b) b))
              \<noteq> TRACKER_NOVIDEO c"
  shows "(last_state (base st) = TRACKER_NOVIDEO c \<longrightarrow> timeout = None) \<Longrightarrow>
         while_active c ts timeout st = Waiting timeout1 st1 \<Longrightarrow>
         last_state (base st1) = TRACKER_NOVIDEO c \<longrightarrow> timeout1 = None"
proof (induction ts arbitrary: timeout st)
  case Nil
  then show ?case by (simp split: if_splits)
next
  case (Cons t ts)
  from Cons.prems(2) have Act: "active (base st)" by (simp split: if_splits)
  obtain r st2 where B: "loop_body c (polled t) timeout st = (r, st2)"
    by (cases "loop_body c (polled t) timeout st")
  from Cons.prems(2) Act B obtain timeout2 where R: "r = Inr timeout2"
    by (cases r) simp_all
  let ?st3 = "if stopped t then set_inactive st2 else st2"
  from Cons.prems(2) Act B R have W: "while_active c ts timeout2 ?st3 = Waiting timeout1 st1"
    by simp
  have "last_state (base st2) = TRACKER_NOVIDEO c \<longrightarrow> timeout2 = None"
    using loop_body_novideo [OF keep Cons.prems(1)] B R by simp
  then have I: "last_state (base ?st3) = TRACKER_NOVIDEO c \<longrightarrow> timeout2 = None"
    by (simp add: set_inactive_def)
  from Cons.IH [OF I W] show ?case .
qed

lemma novideo_wait_is_indefinite:
  fixes st :: "('st, 'sh, 'x) tracker"
  assumes "\<forall>b. last_state b \<noteq> TRACKER_NOVIDEO c \<longrightarrow>
            last_state (snd (update_show_if_needed c (last_state b) (last_show_tuple b) b))
              \<noteq> TRACKER_NOVIDEO c"
    and "observe c ts watch_dir interval st = Waiting timeout1 st1"
    and "last_state (base st1) = TRACKER_NOVIDEO c"
  shows "timeout1 = None"
proof -
  let ?st0 = "log [Info UsingPyinotify, Debug (WatchingDirectory watch_dir), AddWatch watch_dir] st"
  from assms(2) have W: "while_active c ts None ?st0 = Waiting timeout1 st1"
    by (simp add: observe_def split: outcome.splits)
  have "last_state (base ?st0) = TRACKER_NOVIDEO c \<longrightarrow> (None :: nat option) = None"
    by simp
  from while_active_novideo [OF assms(1) this W] assms(3) show ?thesis by simp
qed

lemma novideo_wait_is_indefinite_example:
  "observe example_collab [\<lparr>polled = NoEvents, stopped = False\<rparr>] ''/media'' 1 example_tracker
     = Waiting None
         (outcome_state (observe example_collab [\<lparr>polled = NoEvents, stopped = False\<rparr>]
            ''/media'' 1 example_tracker))
   \<and> last_state (base (outcome_state
         (observe example_collab [\<lparr>polled = NoEvents, stopped = False\<rparr>] ''/media'' 1
            example_tracker)))
     = TRACKER_NOVIDEO example_collab"
proof -
  let ?o = "observe example_collab [\<lparr>polled = NoEvents, stopped = False\<rparr>] ''/media'' 1
              example_tracker"
  have K: "\<forall>b. last_state b \<noteq> TRACKER_NOVIDEO example_collab \<longrightarrow>
            last_state (snd (update_show_if_needed example_collab (last_state b)
              (last_show_tuple b) b)) \<noteq> TRACKER_NOVIDEO example_collab"
    by (simp add: example_collab_def)
  have "\<exists>timeout. ?o = Waiting timeout (outcome_state ?o)"
    by (simp add: run_simps log_def)
  then obtain timeout where W: "?o = Waiting timeout (outcome_state ?o)" by blast
  have S: "last_state (base (outcome_state ?o)) = TRACKER_NOVIDEO example_collab"
    by (simp add: run_simps log_def)
  from novideo_wait_is_indefinite [OF K W S] W S show ?thesis by simp
qed

text \<open>
  Claim C1. The claim's rule is the one the source writes down: \<^verbatim>\<open>timeout = None\<close>
  ("Block indefinitely") when \<^verbatim>\<open>last_state\<close> is \<^verbatim>\<open>TRACKER_NOVIDEO\<close> or
  \<^verbatim>\<open>last_updated\<close> is set, and 1000 ("Check each second for counting") otherwise. The
  source applies it only after a wait that delivered events, not after the timed-out wait
  in which \<^verbatim>\<open>update_show_if_needed\<close> sets \<^verbatim>\<open>last_updated\<close>. In the run below an open
  event starts the tracking, the second wait uses 1000 and times out, the update is sent
  and \<^verbatim>\<open>last_updated\<close> is set, and the third wait uses 1000 again where the rule gives
  \<^verbatim>\<open>None\<close>.
\<close>
theorem short_timeout_after_update:
  "observe example_collab example_turns ''/media'' 1 example_tracker
     = Waiting (Some 1000)
         (outcome_state (observe example_collab example_turns ''/media'' 1 example_tracker))
   \<and> base (outcome_state (observe example_collab example_turns ''/media'' 1 example_tracker))
     = \<lparr>active = True, last_state = 1, last_show_tuple = ''show.mkv'', last_updated = True,
        other = ()\<rparr>
   \<and> wait_timeouts (trace (outcome_state
         (observe example_collab example_turns ''/media'' 1 example_tracker)))
     = [None, Some 1000]"
  by (simp add: run_simps example_turns_def log_def)

end
